theory Spec2Isabelle
  imports Main "HOL-Library.Sublist"
begin

section \<open>JavaScript values used by \<open>App.tsx\<close>\<close>

text \<open>
  A value of type \<open>string | undefined\<close> (or \<open>T | null\<close>) is an \<open>option\<close>. In a boolean
  position JavaScript takes \<open>undefined\<close>, \<open>null\<close> and the empty string as false.
\<close>

fun truthy :: "string option \<Rightarrow> bool" where
  "truthy None = False"
| "truthy (Some s) = (s \<noteq> [])"

text \<open>\<open>s.includes(p)\<close>: \<open>p\<close> occurs in \<open>s\<close> as a contiguous run of characters.\<close>

fun str_includes :: "string \<Rightarrow> string \<Rightarrow> bool" where
  "str_includes [] p = (p = [])"
| "str_includes (c # cs) p = (prefix p (c # cs) \<or> str_includes cs p)"

text \<open>\<open>xs.indexOf(x)\<close>: the first position of \<open>x\<close>, or \<open>-1\<close>.\<close>

fun indexOf :: "'a list \<Rightarrow> 'a \<Rightarrow> int" where
  "indexOf [] x = - 1"
| "indexOf (y # ys) x =
     (if y = x then 0 else (let i = indexOf ys x in if i < 0 then - 1 else i + 1))"

text \<open>
  The remainder operator \<open>%\<close> of JavaScript truncates towards zero: the result has the
  sign of the dividend.
\<close>

definition js_rem :: "int \<Rightarrow> int \<Rightarrow> int" where
  "js_rem a b = sgn a * (\<bar>a\<bar> mod \<bar>b\<bar>)"

text \<open>\<open>xs[i]\<close> on an array: \<open>undefined\<close> (here \<open>None\<close>) outside the array.\<close>

definition at_index :: "'a list \<Rightarrow> int \<Rightarrow> 'a option" where
  "at_index xs i = (if 0 \<le> i \<and> i < int (length xs) then Some (xs ! nat i) else None)"

text \<open>\<open>s.split(',')\<close>: the pieces of \<open>s\<close> between the separators, at least one piece.\<close>

fun split_on :: "char \<Rightarrow> string \<Rightarrow> string list" where
  "split_on sep [] = [[]]"
| "split_on sep (c # cs) =
     (if c = sep then [] # split_on sep cs
      else (case split_on sep cs of
              [] \<Rightarrow> [[c]]
            | p # ps \<Rightarrow> (c # p) # ps))"

section \<open>The loading messages\<close>

definition loadingMessages :: "string list" where
  "loadingMessages =
     [''Warming up the creative engines...'',
      ''Gathering pixels and inspiration...'',
      ''This can take a few minutes, great art needs patience.'',
      ''Composing your video masterpiece...'',
      ''Finalizing the special effects...'']"

text \<open>
  The updater passed to \<open>setLoadingMessage\<close> on every tick of the 3000 ms interval
  (lines 76 to 80). The result is what \<open>loadingMessages[nextIndex]\<close> evaluates to,
  \<open>None\<close> standing for \<open>undefined\<close>.
\<close>

definition nextLoadingMessage :: "string \<Rightarrow> string option" where
  "nextLoadingMessage prev =
     (let currentIndex = indexOf loadingMessages prev;
          nextIndex = js_rem (currentIndex + 1) (int (length loadingMessages))
      in at_index loadingMessages nextIndex)"

section \<open>The data of the component\<close>

text \<open>The type \<open>AspectRatio\<close> of \<open>./types\<close>, with the two values the component uses.\<close>

datatype AspectRatio = Ratio_16_9 | Ratio_9_16

text \<open>A \<open>File\<close> chosen by the user; \<open>mimeType\<close> is its \<open>type\<close> property.\<close>

record js_file =
  fileName :: string
  mimeType :: string

text \<open>
  A value that is thrown, or that a promise is rejected with. The catch block tells an
  instance of \<open>Error\<close>, which has a message, from every other value (the \<open>FileReader\<close>
  rejects with an event, for instance).
\<close>

datatype thrown = JsError string | NonError

text \<open>
  The operation handle of the remote service: \<open>opDone\<close> is \<open>operation.done\<close> read as a
  boolean, \<open>videoUri\<close> is \<open>operation.response?.generatedVideos?.[0]?.video?.uri\<close>.
\<close>

record operation =
  opName :: string
  opDone :: bool
  videoUri :: "string option"

text \<open>The argument of \<open>ai.models.generateVideos\<close>.\<close>

record request =
  model :: string
  reqPrompt :: string
  imageBytes :: "string option"
  imageMimeType :: string
  numberOfVideos :: nat
  resolution :: string
  reqAspectRatio :: AspectRatio

text \<open>The response of \<open>fetch\<close>; \<open>blobResult\<close> is what \<open>videoResponse.blob()\<close> settles to.\<close>

record response =
  ok :: bool
  statusText :: string
  blobResult :: "thrown + string"

text \<open>What an object URL refers to: the chosen image file or a fetched video.\<close>

datatype blob = ImageBlob js_file | VideoBlob string

text \<open>
  The calls that leave the component, in the order they are made. An object URL is
  identified by a number: \<open>URL.createObjectURL\<close> returns a new one on every call.
\<close>

datatype event =
    NewGoogleGenAI "string option"
  | ReadAsDataURL js_file
  | GenerateVideos request
  | SetTimeout nat
  | GetVideosOperation operation
  | Fetch string
  | ReadBlob
  | CreateObjectURL blob nat
  | RevokeObjectURL nat
  | ConsoleError thrown

text \<open>
  Everything outside the component: the credential \<open>process.env.API_KEY\<close> and the
  outcome of every call, \<open>Inl\<close> for a throw or a rejection. The service answers the
  \<open>n\<close>-th status request for a handle through \<open>getVideosOperation\<close>.
\<close>

record env =
  API_KEY :: "string option"
  newGoogleGenAI :: "string option \<Rightarrow> thrown option"
  readAsDataURL :: "js_file \<Rightarrow> thrown + string"
  generateVideos :: "request \<Rightarrow> thrown + operation"
  getVideosOperation :: "nat \<Rightarrow> operation \<Rightarrow> thrown + operation"
  fetch :: "string \<Rightarrow> thrown + response"

text \<open>
  The state of \<open>App\<close>: the nine \<open>useState\<close> cells (lines 44 to 52), and around them
  \<open>urlToRevoke\<close>, the value captured by the effect of lines 86 to 93 when it last ran,
  \<open>objectUrls\<close>, the object URLs of the browser that are created and not revoked,
  \<open>nextUrl\<close>, the next new object URL, and the calls made so far.
\<close>

record state =
  apiKeySelected :: "bool option"
  imageFile :: "js_file option"
  imagePreview :: "nat option"
  prompt :: string
  aspectRatio :: AspectRatio
  isLoading :: bool
  loadingMessage :: string
  generatedVideoUrl :: "nat option"
  error :: "string option"
  urlToRevoke :: "nat option"
  objectUrls :: "(nat \<times> blob) list"
  nextUrl :: nat
  trace :: "event list"

definition initial_state :: state where
  "initial_state =
     \<lparr>apiKeySelected = None, imageFile = None, imagePreview = None,
      prompt = ''uma pessoa com malas atravessando a ponte da amizade do brasil para o paraguai'',
      aspectRatio = Ratio_16_9, isLoading = False,
      loadingMessage = ''Warming up the creative engines...'',
      generatedVideoUrl = None, error = None,
      urlToRevoke = None, objectUrls = [], nextUrl = 0, trace = []\<rparr>"

section \<open>The browser and React\<close>

definition emit :: "event \<Rightarrow> state \<Rightarrow> state" where
  "emit e s = s\<lparr>trace := trace s @ [e]\<rparr>"

definition createObjectURL :: "blob \<Rightarrow> state \<Rightarrow> nat \<times> state" where
  "createObjectURL b s =
     (nextUrl s,
      emit (CreateObjectURL b (nextUrl s))
        (s\<lparr>objectUrls := objectUrls s @ [(nextUrl s, b)], nextUrl := Suc (nextUrl s)\<rparr>))"

definition revokeObjectURL :: "nat \<Rightarrow> state \<Rightarrow> state" where
  "revokeObjectURL u s =
     emit (RevokeObjectURL u) (s\<lparr>objectUrls := filter (\<lambda>p. fst p \<noteq> u) (objectUrls s)\<rparr>)"

text \<open>
  The effect of lines 86 to 93 depends on \<open>generatedVideoUrl\<close>. When React renders
  after state updates and that cell has changed, the cleanup of the previous run revokes
  the URL it captured, if there is one, and the effect runs again and captures the new
  value.
\<close>

definition commit :: "state \<Rightarrow> state" where
  "commit s =
     (if generatedVideoUrl s = urlToRevoke s then s
      else (case urlToRevoke s of
              None \<Rightarrow> s
            | Some u \<Rightarrow> revokeObjectURL u s)\<lparr>urlToRevoke := generatedVideoUrl s\<rparr>)"

text \<open>When the component is unmounted the cleanup runs a last time.\<close>

definition unmount :: "state \<Rightarrow> state" where
  "unmount s =
     (case urlToRevoke s of
        None \<Rightarrow> s
      | Some u \<Rightarrow> (revokeObjectURL u s)\<lparr>urlToRevoke := None\<rparr>)"

section \<open>The handlers\<close>

text \<open>
  \<open>checkKey\<close> (lines 55 to 69). The argument is \<open>None\<close> when \<open>window.aistudio\<close> offers no
  \<open>hasSelectedApiKey\<close>, and otherwise what the call settles to.
\<close>

definition checkKey :: "(thrown + bool) option \<Rightarrow> state \<Rightarrow> state" where
  "checkKey aistudio s =
     (case aistudio of
        None \<Rightarrow> s\<lparr>apiKeySelected := Some True\<rparr>
      | Some (Inr hasKey) \<Rightarrow> s\<lparr>apiKeySelected := Some hasKey\<rparr>
      | Some (Inl err) \<Rightarrow>
          (emit (ConsoleError err) s)
            \<lparr>error := Some ''Could not verify API key status. Assuming key is present.'',
             apiKeySelected := Some True\<rparr>)"


text \<open>\<open>handleImageChange\<close> (lines 103 to 113); the argument is \<open>e.target.files?.[0]\<close>.\<close>

definition handleImageChange :: "js_file option \<Rightarrow> state \<Rightarrow> state" where
  "handleImageChange chosen s =
     (case chosen of
        None \<Rightarrow> s
      | Some f \<Rightarrow>
          (let s1 = (if generatedVideoUrl s \<noteq> None then s\<lparr>generatedVideoUrl := None\<rparr> else s);
               s2 = s1\<lparr>imageFile := Some f\<rparr>;
               (previewUrl, s3) = createObjectURL (ImageBlob f) s2;
               s4 = s3\<lparr>imagePreview := Some previewUrl\<rparr>
           in commit s4))"

text \<open>The handler of the button "Create Another" (lines 223 to 227).\<close>

definition createAnother :: "state \<Rightarrow> state" where
  "createAnother s =
     commit (s\<lparr>generatedVideoUrl := None, imageFile := None, imagePreview := None\<rparr>)"

text \<open>\<open>isGenerateDisabled\<close> (line 177).\<close>

definition isGenerateDisabled :: "state \<Rightarrow> bool" where
  "isGenerateDisabled s = (isLoading s \<or> imageFile s = None \<or> prompt s = [])"

text \<open>
  \<open>fileToBase64\<close> (lines 6 to 15): the reader is started, and the promise resolves with
  the second piece of the data URL split at commas, or rejects with the reader's event.
  The await is the first point at which React renders the updates made so far.
\<close>

definition fileToBase64 :: "env \<Rightarrow> js_file \<Rightarrow> state \<Rightarrow> (thrown + string option) \<times> state" where
  "fileToBase64 env f s =
     (let s1 = commit (emit (ReadAsDataURL f) s)
      in case readAsDataURL env f of
           Inl ev \<Rightarrow> (Inl ev, s1)
         | Inr result \<Rightarrow> (Inr (at_index (split_on CHR '','' result) 1), s1))"

text \<open>
  The loop of lines 145 to 148. It has no bound, so the function is partial: \<open>None\<close> is
  a loop that never ends. \<open>n\<close> counts the status requests made so far.
\<close>

partial_function (option) poll_loop ::
  "env \<Rightarrow> nat \<Rightarrow> operation \<Rightarrow> state \<Rightarrow> ((thrown + operation) \<times> state) option" where
  "poll_loop env n operation s =
     (if opDone operation then Some (Inr operation, s)
      else (let s1 = emit (SetTimeout 10000) s;
                s2 = emit (GetVideosOperation operation) s1
            in case getVideosOperation env n operation of
                 Inl err \<Rightarrow> Some (Inl err, s2)
               | Inr operation' \<Rightarrow> poll_loop env (Suc n) operation' s2))"

declare poll_loop.simps [code]

text \<open>A template literal prints \<open>undefined\<close> by its name.\<close>

fun interpolate :: "string option \<Rightarrow> string" where
  "interpolate None = ''undefined''"
| "interpolate (Some s) = s"

text \<open>Lines 150 to 161: the result of the finished operation is fetched.\<close>

definition fetch_video :: "env \<Rightarrow> operation \<Rightarrow> state \<Rightarrow> (thrown + unit) \<times> state" where
  "fetch_video env operation s =
     (let uri = videoUri operation
      in if truthy uri \<and> truthy (API_KEY env) then
           (let url = interpolate uri @ ''&key='' @ interpolate (API_KEY env);
                s1 = emit (Fetch url) s
            in case fetch env url of
                 Inl err \<Rightarrow> (Inl err, s1)
               | Inr videoResponse \<Rightarrow>
                   if \<not> ok videoResponse then
                     (Inl (JsError (''Failed to fetch video: '' @ statusText videoResponse)), s1)
                   else
                     (let s2 = emit ReadBlob s1
                      in case blobResult videoResponse of
                           Inl err \<Rightarrow> (Inl err, s2)
                         | Inr videoBlob \<Rightarrow>
                             (let (objectUrl, s3) = createObjectURL (VideoBlob videoBlob) s2
                              in (Inr (), s3\<lparr>generatedVideoUrl := Some objectUrl\<rparr>))))
         else (Inl (JsError ''Video generation completed, but no video URI was found.''), s))"

text \<open>The argument of \<open>generateVideos\<close> (lines 131 to 143).\<close>

definition request_of :: "state \<Rightarrow> js_file \<Rightarrow> string option \<Rightarrow> request" where
  "request_of s f imageBase64 =
     \<lparr>model = ''veo-3.1-fast-generate-preview'',
      reqPrompt = prompt s,
      imageBytes = imageBase64,
      imageMimeType = mimeType f,
      numberOfVideos = 1,
      resolution = ''720p'',
      reqAspectRatio = aspectRatio s\<rparr>"

text \<open>The body of the \<open>try\<close> (lines 128 to 161), for the image file \<open>f\<close>.\<close>

definition try_body :: "env \<Rightarrow> js_file \<Rightarrow> state \<Rightarrow> ((thrown + unit) \<times> state) option" where
  "try_body env f s =
     (let s1 = emit (NewGoogleGenAI (API_KEY env)) s
      in case newGoogleGenAI env (API_KEY env) of
           Some err \<Rightarrow> Some (Inl err, s1)
         | None \<Rightarrow>
             (case fileToBase64 env f s1 of
                (Inl err, s2) \<Rightarrow> Some (Inl err, s2)
              | (Inr imageBase64, s2) \<Rightarrow>
                  (let req = request_of s2 f imageBase64;
                       s3 = emit (GenerateVideos req) s2
                   in case generateVideos env req of
                        Inl err \<Rightarrow> Some (Inl err, s3)
                      | Inr operation \<Rightarrow>
                          (case poll_loop env 0 operation s3 of
                             None \<Rightarrow> None
                           | Some (Inl err, s4) \<Rightarrow> Some (Inl err, s4)
                           | Some (Inr operation', s4) \<Rightarrow> Some (fetch_video env operation' s4)))))"

text \<open>The \<open>catch\<close> block (lines 163 to 171).\<close>

definition errorMessageOf :: "thrown \<Rightarrow> string" where
  "errorMessageOf err = (case err of JsError m \<Rightarrow> m | NonError \<Rightarrow> ''An unknown error occurred.'')"

definition catch_block :: "thrown \<Rightarrow> state \<Rightarrow> state" where
  "catch_block err s =
     (let errorMessage = errorMessageOf err;
          s1 = emit (ConsoleError err) s
      in if str_includes errorMessage ''Requested entity was not found'' then
           s1\<lparr>error := Some ''Your API key is invalid or not configured. Please select a valid key.'',
              apiKeySelected := Some False\<rparr>
         else s1\<lparr>error := Some (''Failed to generate video: '' @ errorMessage)\<rparr>)"

text \<open>
  Lines 121 to 125, the updates before the \<open>try\<close>. \<open>captured\<close> is the value of
  \<open>generatedVideoUrl\<close> that the callback closed over.
\<close>

definition begin_flow :: "nat option \<Rightarrow> state \<Rightarrow> state" where
  "begin_flow captured s =
     (let s1 = s\<lparr>isLoading := True\<rparr>;
          s2 = s1\<lparr>error := None\<rparr>
      in if captured \<noteq> None then s2\<lparr>generatedVideoUrl := None\<rparr> else s2)"

text \<open>
  \<open>handleGenerateVideo\<close> (lines 115 to 175). The callback is memoized on \<open>imageFile\<close>,
  \<open>prompt\<close> and \<open>aspectRatio\<close> only, so these three are those of the current state, while
  the \<open>generatedVideoUrl\<close> it tests in line 123 is the value \<open>captured\<close> when the callback
  was made. The result is how the promise of the handler settles, \<open>Inl\<close> for a rejection;
  \<open>None\<close> is a handler that never settles.
\<close>

definition handleGenerateVideo ::
  "env \<Rightarrow> nat option \<Rightarrow> state \<Rightarrow> ((thrown + unit) \<times> state) option" where
  "handleGenerateVideo env captured s =
     (case imageFile s of
        None \<Rightarrow> Some (Inr (), s\<lparr>error := Some ''Please upload an image and provide a prompt.''\<rparr>)
      | Some f \<Rightarrow>
          if prompt s = [] then
            Some (Inr (), s\<lparr>error := Some ''Please upload an image and provide a prompt.''\<rparr>)
          else
            (case try_body env f (begin_flow captured s) of
               None \<Rightarrow> None
             | Some (Inl err, s4) \<Rightarrow>
                 Some (Inr (), commit ((catch_block err s4)\<lparr>isLoading := False\<rparr>))
             | Some (Inr u, s4) \<Rightarrow>
                 Some (Inr (), commit (s4\<lparr>isLoading := False\<rparr>))))"

section \<open>What is rendered\<close>

text \<open>\<open>renderContent\<close> (lines 179 to 303), as the view it chooses.\<close>

datatype view = Spinner | ApiKeyRequired | LoadingView string | VideoView nat | FormView

definition renderContent :: "state \<Rightarrow> view" where
  "renderContent s =
     (case apiKeySelected s of
        None \<Rightarrow> Spinner
      | Some selected \<Rightarrow>
          if \<not> selected then ApiKeyRequired
          else if isLoading s then LoadingView (loadingMessage s)
          else (case generatedVideoUrl s of
                  Some u \<Rightarrow> VideoView u
                | None \<Rightarrow> FormView))"

text \<open>
  The actions a view offers: the file input is rendered only while there is no preview
  (line 249), the button of line 293 is disabled by \<open>isGenerateDisabled\<close>.
\<close>

datatype action = ChooseImage | ClickGenerate | ClickCreateAnother

definition offered :: "state \<Rightarrow> action \<Rightarrow> bool" where
  "offered s a =
     (case renderContent s of
        FormView \<Rightarrow>
          (case a of
             ChooseImage \<Rightarrow> imagePreview s = None
           | ClickGenerate \<Rightarrow> \<not> isGenerateDisabled s
           | ClickCreateAnother \<Rightarrow> False)
      | VideoView u \<Rightarrow> a = ClickCreateAnother
      | _ \<Rightarrow> False)"

section \<open>Vocabulary of the statements\<close>

text \<open>Several calls appended to the record of calls.\<close>

definition emits :: "event list \<Rightarrow> state \<Rightarrow> state" where
  "emits es s = s\<lparr>trace := trace s @ es\<rparr>"

text \<open>The calls made between an earlier state and a later one.\<close>

definition new_events :: "state \<Rightarrow> state \<Rightarrow> event list" where
  "new_events s s' = drop (length (trace s)) (trace s')"

text \<open>The calls that go to the remote service.\<close>

fun is_network_call :: "event \<Rightarrow> bool" where
  "is_network_call (GenerateVideos r) = True"
| "is_network_call (GetVideosOperation operation) = True"
| "is_network_call (Fetch url) = True"
| "is_network_call ReadBlob = True"
| "is_network_call e = False"

fun is_create :: "event \<Rightarrow> bool" where
  "is_create (CreateObjectURL b u) = True"
| "is_create e = False"

text \<open>
  \<open>pending_run env n operation ops\<close>: starting with the \<open>n\<close>-th status request, the handle
  \<open>operation\<close> and each of its successors but the last of \<open>ops\<close> is not done, and the
  service answers each request with the next handle of \<open>ops\<close>.
\<close>

fun pending_run :: "env \<Rightarrow> nat \<Rightarrow> operation \<Rightarrow> operation list \<Rightarrow> bool" where
  "pending_run env n operation [] = True"
| "pending_run env n operation (operation' # rest) =
     (\<not> opDone operation \<and> getVideosOperation env n operation = Inr operation' \<and>
      pending_run env (Suc n) operation' rest)"

text \<open>One round of the loop for each handle: the wait of 10000 ms, then the request.\<close>

fun poll_events :: "operation list \<Rightarrow> event list" where
  "poll_events [] = []"
| "poll_events (operation # rest) =
     SetTimeout 10000 # GetVideosOperation operation # poll_events rest"

text \<open>The object URLs that are alive and refer to a video, and those of an image.\<close>

fun is_video :: "blob \<Rightarrow> bool" where
  "is_video (VideoBlob b) = True"
| "is_video (ImageBlob f) = False"

definition video_urls :: "state \<Rightarrow> nat list" where
  "video_urls s = map fst (filter (\<lambda>p. is_video (snd p)) (objectUrls s))"

definition image_urls :: "state \<Rightarrow> nat list" where
  "image_urls s = map fst (filter (\<lambda>p. \<not> is_video (snd p)) (objectUrls s))"

text \<open>
  The result slot is in order: the effect has captured the current video URL, the only
  video URL alive is the one of the slot, no URL is alive twice, and every URL alive is
  older than the next new one.
\<close>

definition result_slot_ok :: "state \<Rightarrow> bool" where
  "result_slot_ok s =
     (urlToRevoke s = generatedVideoUrl s \<and>
      video_urls s = (case generatedVideoUrl s of None \<Rightarrow> [] | Some u \<Rightarrow> [u]) \<and>
      distinct (map fst (objectUrls s)) \<and>
      list_all (\<lambda>p. fst p < nextUrl s) (objectUrls s))"

section \<open>Concrete runs\<close>

text \<open>Two image files, and the form after the key check and the choice of the first.\<close>

definition photo :: js_file where
  "photo = \<lparr>fileName = ''bridge.jpg'', mimeType = ''image/jpeg''\<rparr>"

definition photo2 :: js_file where
  "photo2 = \<lparr>fileName = ''river.png'', mimeType = ''image/png''\<rparr>"

definition form_with_image :: state where
  "form_with_image = handleImageChange (Some photo) (checkKey None initial_state)"

text \<open>The handles of one remote job: pending, done with a video, done without one.\<close>

definition job_pending :: operation where
  "job_pending = \<lparr>opName = ''operations/1'', opDone = False, videoUri = None\<rparr>"

definition job_done :: operation where
  "job_done = \<lparr>opName = ''operations/1'', opDone = True,
                videoUri = Some ''https://service.test/files/1:download?alt=media''\<rparr>"

definition job_empty :: operation where
  "job_empty = \<lparr>opName = ''operations/1'', opDone = True, videoUri = None\<rparr>"

text \<open>
  A service on which everything succeeds: the job is pending when it is submitted and at
  the first two status requests, and done at the third; the video is fetched.
\<close>

definition service :: env where
  "service =
     \<lparr>API_KEY = Some ''k3y'',
      newGoogleGenAI = (\<lambda>key. None),
      readAsDataURL = (\<lambda>f. Inr ''data:image/jpeg;base64,AAAA''),
      generateVideos = (\<lambda>r. Inr job_pending),
      getVideosOperation = (\<lambda>n operation. Inr (if n < 2 then job_pending else job_done)),
      fetch = (\<lambda>url. Inr \<lparr>ok = True, statusText = ''OK'', blobResult = Inr ''video bytes''\<rparr>)\<rparr>"

text \<open>The same service, with one thing going wrong.\<close>

definition service_read_fails :: env where
  "service_read_fails = service\<lparr>readAsDataURL := (\<lambda>f. Inl NonError)\<rparr>"

definition service_rejects_key :: env where
  "service_rejects_key =
     service\<lparr>generateVideos := (\<lambda>r. Inl (JsError ''404: Requested entity was not found.''))\<rparr>"

definition service_over_quota :: env where
  "service_over_quota = service\<lparr>generateVideos := (\<lambda>r. Inl (JsError ''429: quota exceeded''))\<rparr>"

definition service_no_video :: env where
  "service_no_video =
     service\<lparr>getVideosOperation := (\<lambda>n operation. Inr (if n < 2 then job_pending else job_empty))\<rparr>"

definition service_fetch_forbidden :: env where
  "service_fetch_forbidden =
     service\<lparr>fetch := (\<lambda>url. Inr \<lparr>ok = False, statusText = ''Forbidden'',
                                    blobResult = Inl NonError\<rparr>)\<rparr>"

definition service_fetch_not_found :: env where
  "service_fetch_not_found =
     service\<lparr>fetch := (\<lambda>url. Inr \<lparr>ok = False, statusText = ''Requested entity was not found'',
                                    blobResult = Inl NonError\<rparr>)\<rparr>"

definition service_empty_key :: env where
  "service_empty_key = service\<lparr>API_KEY := Some []\<rparr>"

text \<open>The state of the form when a first call of the handler has begun.\<close>

definition flow_begun :: state where
  "flow_begun = begin_flow None form_with_image"

text \<open>
  The user chooses an image, generates a video, clicks "Create Another" and chooses a
  second image.
\<close>

definition after_first_video :: "state option" where
  "after_first_video = map_option snd (handleGenerateVideo service None form_with_image)"

definition after_second_image :: "state option" where
  "after_second_image =
     map_option (\<lambda>s. handleImageChange (Some photo2) (createAnother s)) after_first_video"

text \<open>The state in which the run on the service that succeeds ends.\<close>

definition first_video_state :: state where
  "first_video_state =
     \<lparr>apiKeySelected = Some True, imageFile = Some photo, imagePreview = Some 0,
      prompt = ''uma pessoa com malas atravessando a ponte da amizade do brasil para o paraguai'',
      aspectRatio = Ratio_16_9, isLoading = False,
      loadingMessage = ''Warming up the creative engines...'',
      generatedVideoUrl = Some 1, error = None,
      urlToRevoke = Some 1,
      objectUrls = [(0, ImageBlob photo), (1, VideoBlob ''video bytes'')], nextUrl = 2,
      trace = [CreateObjectURL (ImageBlob photo) 0,
               NewGoogleGenAI (Some ''k3y''), ReadAsDataURL photo,
               GenerateVideos (request_of form_with_image photo (Some ''AAAA'')),
               SetTimeout 10000, GetVideosOperation job_pending,
               SetTimeout 10000, GetVideosOperation job_pending,
               SetTimeout 10000, GetVideosOperation job_pending,
               Fetch ''https://service.test/files/1:download?alt=media&key=k3y'',
               ReadBlob, CreateObjectURL (VideoBlob ''video bytes'') 1]\<rparr>"

text \<open>A service on which the job is never done.\<close>

definition service_never_done :: env where
  "service_never_done = service\<lparr>getVideosOperation := (\<lambda>n operation. Inr job_pending)\<rparr>"


section \<open>Facts about the JavaScript helpers\<close>

lemma includes_sublist: "str_includes s p = sublist p s"
  by (induction s) (simp_all add: sublist_Cons_right)

lemma indexOf_notin: "x \<notin> set xs \<Longrightarrow> indexOf xs x = - 1"
  by (induction xs) (auto simp: Let_def)

lemma indexOf_nth:
  "distinct xs \<Longrightarrow> i < length xs \<Longrightarrow> indexOf xs (xs ! i) = int i"
proof (induction xs arbitrary: i)
  case Nil
  then show ?case by simp
next
  case (Cons y ys)
  show ?case
  proof (cases i)
    case 0
    then show ?thesis by simp
  next
    case (Suc j)
    with Cons.prems have j: "j < length ys" and d: "distinct ys" and ne: "y \<noteq> ys ! j"
      by auto
    from Cons.IH [OF d j] have "indexOf ys (ys ! j) = int j" .
    with Suc ne show ?thesis by (simp add: Let_def)
  qed
qed

lemma indexOf_range: "- 1 \<le> indexOf xs x \<and> indexOf xs x < int (length xs)"
  by (induction xs) (auto simp: Let_def)

lemma js_rem_nonneg: "0 \<le> a \<Longrightarrow> 0 < b \<Longrightarrow> js_rem a b = a mod b"
  by (cases "a = 0") (simp_all add: js_rem_def)

lemma distinct_loadingMessages: "distinct loadingMessages"
  by (simp add: loadingMessages_def)

lemma length_loadingMessages: "length loadingMessages = 5"
  by (simp add: loadingMessages_def)

section \<open>The polling loop\<close>

lemma emit_emits: "emit e s = emits [e] s"
  by (simp add: emit_def emits_def)

lemma emits_emits: "emits es (emits es' s) = emits (es' @ es) s"
  by (simp add: emits_def)

lemma emits_Nil: "emits [] s = s"
  by (simp add: emits_def)

lemma poll_loop_done: "opDone operation \<Longrightarrow> poll_loop env n operation s = Some (Inr operation, s)"
  by (subst poll_loop.simps) simp


lemma poll_loop_step:
  "\<not> opDone operation \<Longrightarrow> getVideosOperation env n operation = Inr operation' \<Longrightarrow>
   poll_loop env n operation s = poll_loop env (Suc n) operation' (emits (poll_events [operation]) s)"
  by (subst poll_loop.simps) (simp add: emit_emits emits_emits)

lemma poll_events_append: "poll_events (xs @ ys) = poll_events xs @ poll_events ys"
  by (induction xs) simp_all

lemma poll_loop_run:
  "pending_run env n operation ops \<Longrightarrow>
   poll_loop env n operation s =
   poll_loop env (n + length ops) (last (operation # ops))
     (emits (poll_events (butlast (operation # ops))) s)"
proof (induction ops arbitrary: n operation s)
  case Nil
  then show ?case by (simp add: emits_Nil)
next
  case (Cons operation' rest)
  then have nd: "\<not> opDone operation" and g: "getVideosOperation env n operation = Inr operation'"
    and r: "pending_run env (Suc n) operation' rest" by simp_all
  show ?case
    by (simp add: poll_loop_step [OF nd g] Cons.IH [OF r] emits_emits)
qed


lemma pending_run_append:
  "pending_run env n operation (xs @ ys) =
   (pending_run env n operation xs \<and>
    pending_run env (n + length xs) (last (operation # xs)) ys)"
  by (induction xs arbitrary: n operation) auto

lemma pending_run_unique:
  "pending_run env n operation xs \<Longrightarrow> pending_run env n operation ys \<Longrightarrow>
   length xs = length ys \<Longrightarrow> xs = ys"
proof (induction xs arbitrary: n operation ys)
  case Nil
  then show ?case by simp
next
  case (Cons x xs)
  then obtain y ys' where ys: "ys = y # ys'" by (cases ys) auto
  with Cons.prems have "x = y" by simp
  moreover from Cons.prems ys have "xs = ys'"
    by (intro Cons.IH [of "Suc n" x ys']) auto
  ultimately show ?case using ys by simp
qed

lemma poll_loop_SomeD:
  assumes "poll_loop env n operation s = Some y"
  shows "\<exists>ops. pending_run env n operation ops \<and>
     ((opDone (last (operation # ops)) \<and>
       y = (Inr (last (operation # ops)), emits (poll_events (butlast (operation # ops))) s)) \<or>
      (\<not> opDone (last (operation # ops)) \<and>
       (\<exists>err. getVideosOperation env (n + length ops) (last (operation # ops)) = Inl err \<and>
          y = (Inl err, emits (poll_events (operation # ops)) s))))"
  using assms
proof (induction env n operation s y rule: poll_loop.raw_induct [rotated 1, consumes 1])
  case (1 poll_loop env n operation s y)
  show ?case
  proof (cases "opDone operation")
    case True
    with 1(2) have "y = (Inr operation, s)" by simp
    with True have "pending_run env n operation [] \<and> opDone (last (operation # [])) \<and>
        y = (Inr (last (operation # [])), emits (poll_events (butlast (operation # []))) s)"
      by (simp add: emits_Nil)
    then show ?thesis by blast
  next
    case nd: False
    show ?thesis
    proof (cases "getVideosOperation env n operation")
      case (Inl err)
      with nd 1(2) have "y = (Inl err, emits (poll_events [operation]) s)"
        by (simp add: emit_emits emits_emits)
      with nd Inl have "pending_run env n operation [] \<and> \<not> opDone (last (operation # [])) \<and>
          getVideosOperation env (n + length ([]::operation list)) (last (operation # [])) = Inl err \<and>
          y = (Inl err, emits (poll_events (operation # [])) s)"
        by simp
      then show ?thesis by blast
    next
      case (Inr operation')
      with nd 1(2) have
        "poll_loop env (Suc n) operation' (emits (poll_events [operation]) s) = Some y"
        by (simp add: emit_emits emits_emits)
      from 1(1) [OF this] obtain ops where p: "pending_run env (Suc n) operation' ops"
        and d: "(opDone (last (operation' # ops)) \<and>
           y = (Inr (last (operation' # ops)),
                emits (poll_events (butlast (operation' # ops)))
                  (emits (poll_events [operation]) s))) \<or>
          (\<not> opDone (last (operation' # ops)) \<and>
           (\<exists>err. getVideosOperation env (Suc n + length ops) (last (operation' # ops)) = Inl err \<and>
              y = (Inl err, emits (poll_events (operation' # ops))
                     (emits (poll_events [operation]) s))))"
        by blast
      from nd Inr p have "pending_run env n operation (operation' # ops)" by simp
      moreover from d have "(opDone (last (operation # operation' # ops)) \<and>
           y = (Inr (last (operation # operation' # ops)),
                emits (poll_events (butlast (operation # operation' # ops))) s)) \<or>
          (\<not> opDone (last (operation # operation' # ops)) \<and>
           (\<exists>err. getVideosOperation env (n + length (operation' # ops))
                     (last (operation # operation' # ops)) = Inl err \<and>
              y = (Inl err, emits (poll_events (operation # operation' # ops)) s)))"
        by (simp add: emits_emits)
      ultimately show ?thesis by blast
    qed
  qed
qed

lemma poll_loop_forever:
  assumes "\<forall>k. \<exists>ops. length ops = k \<and> pending_run env n operation ops"
  shows "poll_loop env n operation s = None"
proof (rule ccontr)
  assume "poll_loop env n operation s \<noteq> None"
  then obtain y where "poll_loop env n operation s = Some y" by blast
  from poll_loop_SomeD [OF this] obtain ops where p: "pending_run env n operation ops"
    and d: "opDone (last (operation # ops)) \<or>
      (\<exists>err. getVideosOperation env (n + length ops) (last (operation # ops)) = Inl err)"
    by blast
  from assms obtain ops' where l: "length ops' = Suc (length ops)"
    and p': "pending_run env n operation ops'" by blast
  from l obtain xs x where e: "ops' = xs @ [x]" and lx: "length xs = length ops"
    by (metis length_Suc_conv_rev)
  from p' e have px: "pending_run env n operation xs"
    and pl: "pending_run env (n + length xs) (last (operation # xs)) [x]"
    by (simp_all add: pending_run_append)
  from pending_run_unique [OF px p lx] have "xs = ops" .
  with pl have "\<not> opDone (last (operation # ops))"
    "getVideosOperation env (n + length ops) (last (operation # ops)) = Inr x"
    by simp_all
  with d show False by auto
qed

section \<open>The steps of the handler\<close>

lemma new_events_filter:
  "prefix (trace s) (trace s') \<Longrightarrow>
   filter P (new_events s s') = drop (length (filter P (trace s))) (filter P (trace s'))"
  by (auto simp: new_events_def prefix_def)

lemma try_body_polled:
  assumes "newGoogleGenAI env (API_KEY env) = None"
    and "readAsDataURL env f = Inr dataUrl"
    and "generateVideos env (request_of s f (at_index (split_on CHR '','' dataUrl) 1)) = Inr operation"
    and "pending_run env 0 operation ops"
    and "opDone (last (operation # ops))"
  shows "try_body env f s =
     Some (fetch_video env (last (operation # ops))
       (emits (GenerateVideos (request_of s f (at_index (split_on CHR '','' dataUrl) 1)) #
               poll_events (butlast (operation # ops)))
          (commit (emits [NewGoogleGenAI (API_KEY env), ReadAsDataURL f] s))))"
proof -
  let ?s2 = "commit (emits [NewGoogleGenAI (API_KEY env), ReadAsDataURL f] s)"
  have r: "request_of ?s2 f b = request_of s f b" for b
    by (simp add: request_of_def commit_def emits_def revokeObjectURL_def emit_def split: option.splits)
  have p: "poll_loop env 0 operation s3 =
      Some (Inr (last (operation # ops)), emits (poll_events (butlast (operation # ops))) s3)" for s3
    using poll_loop_run [OF assms(4), of s3] poll_loop_done [OF assms(5)] by simp
  show ?thesis
    using assms(1,2,3)
    by (simp add: try_body_def fileToBase64_def Let_def r p emit_emits emits_emits)
qed


lemma prefix_trace_commit: "prefix (trace s) (trace (commit s))"
  by (simp add: commit_def revokeObjectURL_def emit_def split: option.splits)

lemma filter_trace_commit:
  "(\<And>u. \<not> P (RevokeObjectURL u)) \<Longrightarrow> filter P (trace (commit s)) = filter P (trace s)"
  by (simp add: commit_def revokeObjectURL_def emit_def split: option.splits)

lemma trace_emits: "trace (emits es s) = trace s @ es"
  by (simp add: emits_def)

lemma filter_poll_events_network: "filter is_network_call (poll_events ops) = map GetVideosOperation ops"
  by (induction ops) simp_all

lemma filter_poll_events_create: "filter is_create (poll_events ops) = []"
  by (induction ops) simp_all



lemma commit_fields:
  "apiKeySelected (commit s) = apiKeySelected s"
  "imageFile (commit s) = imageFile s"
  "imagePreview (commit s) = imagePreview s"
  "prompt (commit s) = prompt s"
  "aspectRatio (commit s) = aspectRatio s"
  "isLoading (commit s) = isLoading s"
  "loadingMessage (commit s) = loadingMessage s"
  "generatedVideoUrl (commit s) = generatedVideoUrl s"
  "error (commit s) = error s"
  "nextUrl (commit s) = nextUrl s"
  "urlToRevoke (commit s) = generatedVideoUrl s"
  by (simp_all add: commit_def revokeObjectURL_def emit_def split: option.splits)

lemma emits_fields:
  "apiKeySelected (emits es s) = apiKeySelected s"
  "imageFile (emits es s) = imageFile s"
  "imagePreview (emits es s) = imagePreview s"
  "prompt (emits es s) = prompt s"
  "aspectRatio (emits es s) = aspectRatio s"
  "isLoading (emits es s) = isLoading s"
  "loadingMessage (emits es s) = loadingMessage s"
  "generatedVideoUrl (emits es s) = generatedVideoUrl s"
  "error (emits es s) = error s"
  "nextUrl (emits es s) = nextUrl s"
  "urlToRevoke (emits es s) = urlToRevoke s"
  "objectUrls (emits es s) = objectUrls s"
  by (simp_all add: emits_def)

lemma begin_flow_fields:
  "apiKeySelected (begin_flow captured s) = apiKeySelected s"
  "imageFile (begin_flow captured s) = imageFile s"
  "imagePreview (begin_flow captured s) = imagePreview s"
  "prompt (begin_flow captured s) = prompt s"
  "aspectRatio (begin_flow captured s) = aspectRatio s"
  "isLoading (begin_flow captured s) = True"
  "loadingMessage (begin_flow captured s) = loadingMessage s"
  "generatedVideoUrl (begin_flow captured s) = (if captured \<noteq> None then None else generatedVideoUrl s)"
  "error (begin_flow captured s) = None"
  "nextUrl (begin_flow captured s) = nextUrl s"
  "urlToRevoke (begin_flow captured s) = urlToRevoke s"
  "objectUrls (begin_flow captured s) = objectUrls s"
  "trace (begin_flow captured s) = trace s"
  by (simp_all add: begin_flow_def Let_def)

lemma handler_of_try:
  assumes "imageFile s = Some f" and "prompt s \<noteq> []"
    and "try_body env f (begin_flow captured s) = Some (r, s4)"
  shows "handleGenerateVideo env captured s =
    Some (Inr (), commit ((case r of Inl err \<Rightarrow> catch_block err s4 | Inr u \<Rightarrow> s4)\<lparr>isLoading := False\<rparr>))"
  using assms by (simp add: handleGenerateVideo_def split: sum.splits)

lemma request_of_begin_flow: "request_of (begin_flow captured s) f b = request_of s f b"
  by (simp add: request_of_def begin_flow_def Let_def)

lemma flow_polled:
  assumes "newGoogleGenAI env (API_KEY env) = None"
    and "readAsDataURL env f = Inr dataUrl"
    and "generateVideos env (request_of s f (at_index (split_on CHR '','' dataUrl) 1)) = Inr operation"
    and "pending_run env 0 operation ops"
    and "opDone (last (operation # ops))"
    and "fin = last (operation # ops)" and "pol = butlast (operation # ops)"
    and "req = request_of s f (at_index (split_on CHR '','' dataUrl) 1)"
  shows "try_body env f (begin_flow captured s) =
     Some (fetch_video env fin
       (emits (GenerateVideos req # poll_events pol)
          (commit (emits [NewGoogleGenAI (API_KEY env), ReadAsDataURL f] (begin_flow captured s)))))"
proof -
  have "try_body env f (begin_flow captured s) =
     Some (fetch_video env (last (operation # ops))
       (emits (GenerateVideos (request_of (begin_flow captured s) f
                 (at_index (split_on CHR '','' dataUrl) 1)) #
               poll_events (butlast (operation # ops)))
          (commit (emits [NewGoogleGenAI (API_KEY env), ReadAsDataURL f] (begin_flow captured s)))))"
    by (rule try_body_polled [OF assms(1,2) _ assms(4,5)])
       (simp only: request_of_begin_flow assms(3))
  then show ?thesis
    by (simp only: request_of_begin_flow assms(6,7,8))
qed

lemma catch_block_plain:
  "\<not> str_includes (errorMessageOf err) ''Requested entity was not found'' \<Longrightarrow>
   catch_block err s =
     (emit (ConsoleError err) s)\<lparr>error := Some (''Failed to generate video: '' @ errorMessageOf err)\<rparr>"
  by (simp add: catch_block_def Let_def)

lemma catch_block_auth:
  "str_includes (errorMessageOf err) ''Requested entity was not found'' \<Longrightarrow>
   catch_block err s =
     (emit (ConsoleError err) s)
       \<lparr>error := Some ''Your API key is invalid or not configured. Please select a valid key.'',
        apiKeySelected := Some False\<rparr>"
  by (simp add: catch_block_def Let_def)

lemma begin_flow_isLoading:
  "begin_flow captured (s\<lparr>isLoading := b\<rparr>) = begin_flow captured s"
  by (simp add: begin_flow_def Let_def)

lemma poll_loop_unfold:
  "\<not> opDone operation \<Longrightarrow>
   poll_loop env n operation s =
     (case getVideosOperation env n operation of
        Inl err \<Rightarrow> Some (Inl err, emits [SetTimeout 10000, GetVideosOperation operation] s)
      | Inr operation' \<Rightarrow>
          poll_loop env (Suc n) operation' (emits [SetTimeout 10000, GetVideosOperation operation] s))"
  by (subst poll_loop.simps) (simp add: emit_emits emits_emits Let_def split: sum.splits)

lemmas flow_defs =
  handleGenerateVideo_def begin_flow_def try_body_def fileToBase64_def fetch_video_def
  catch_block_def errorMessageOf_def request_of_def createObjectURL_def revokeObjectURL_def
  commit_def emit_def emits_def at_index_def Let_def
  poll_loop_done poll_loop_unfold

lemmas service_defs =
  service_def service_read_fails_def service_rejects_key_def service_over_quota_def
  service_no_video_def service_fetch_forbidden_def service_fetch_not_found_def
  service_empty_key_def job_pending_def job_done_def job_empty_def

lemma poll_loop_emits:
  assumes "poll_loop env n operation s = Some (r, s')"
  shows "\<exists>ops. s' = emits (poll_events ops) s"
proof -
  from poll_loop_SomeD [OF assms] obtain ops where
    "s' = emits (poll_events (butlast (operation # ops))) s \<or>
     s' = emits (poll_events (operation # ops)) s"
    by blast
  then show ?thesis by blast
qed


lemma fetch_video_frame:
  assumes "fetch_video env operation s = (r, s')"
  shows "apiKeySelected s' = apiKeySelected s" "error s' = error s" "isLoading s' = isLoading s"
    "imagePreview s' = imagePreview s" "imageFile s' = imageFile s" "urlToRevoke s' = urlToRevoke s"
    "generatedVideoUrl s' = (case r of Inl err \<Rightarrow> generatedVideoUrl s | Inr u \<Rightarrow> Some (nextUrl s))"
    "prefix (trace s) (trace s')"
    "prompt s' = prompt s"
  using assms
  by (auto simp: fetch_video_def Let_def createObjectURL_def emit_def
      split: if_splits sum.splits prod.splits)

lemma try_body_frame:
  assumes "try_body env f s = Some (r, s')"
  shows "apiKeySelected s' = apiKeySelected s" "error s' = error s" "isLoading s' = isLoading s"
    "imagePreview s' = imagePreview s" "imageFile s' = imageFile s"
    "generatedVideoUrl s' = (case r of Inl err \<Rightarrow> generatedVideoUrl s | Inr u \<Rightarrow> Some (nextUrl s))"
    "prefix (trace s) (trace s')"
    "prompt s' = prompt s"
proof -
  define s1 where "s1 = emits [NewGoogleGenAI (API_KEY env)] s"
  define s2 where "s2 = commit (emits [ReadAsDataURL f] s1)"
  define req where "req = (\<lambda>b. request_of s2 f b)"
  define s3 where "s3 = (\<lambda>b. emits [GenerateVideos (req b)] s2)"
  have alt: "(\<exists>err. r = Inl err \<and>
        (s' = s1 \<or> s' = s2 \<or> (\<exists>b. s' = s3 b) \<or> (\<exists>b ops. s' = emits (poll_events ops) (s3 b)))) \<or>
      (\<exists>b operation ops. fetch_video env operation (emits (poll_events ops) (s3 b)) = (r, s'))"
    using assms
    by (auto simp: try_body_def fileToBase64_def Let_def emit_emits s1_def s2_def s3_def req_def
        split: option.splits sum.splits prod.splits dest!: poll_loop_emits)
  have f1: "apiKeySelected s1 = apiKeySelected s" "error s1 = error s" "isLoading s1 = isLoading s"
    "imagePreview s1 = imagePreview s" "imageFile s1 = imageFile s"
    "generatedVideoUrl s1 = generatedVideoUrl s" "prefix (trace s) (trace s1)"
    "nextUrl s1 = nextUrl s"
    by (simp_all add: s1_def emits_fields trace_emits)
  have p2: "prefix (trace s) (trace s2)"
  proof -
    have "prefix (trace s) (trace (emits [ReadAsDataURL f] s1))"
      by (simp add: s1_def trace_emits)
    then show ?thesis
      unfolding s2_def by (rule prefix_order.trans [OF _ prefix_trace_commit])
  qed
  have f2: "apiKeySelected s2 = apiKeySelected s" "error s2 = error s" "isLoading s2 = isLoading s"
    "imagePreview s2 = imagePreview s" "imageFile s2 = imageFile s"
    "generatedVideoUrl s2 = generatedVideoUrl s"
    "nextUrl s2 = nextUrl s"
    using f1 by (simp_all add: s2_def commit_fields emits_fields)
  have f3: "apiKeySelected (emits es (s3 b)) = apiKeySelected s" "error (emits es (s3 b)) = error s"
    "isLoading (emits es (s3 b)) = isLoading s"
    "imagePreview (emits es (s3 b)) = imagePreview s" "imageFile (emits es (s3 b)) = imageFile s"
    "generatedVideoUrl (emits es (s3 b)) = generatedVideoUrl s"
    "prefix (trace s) (trace (emits es (s3 b)))"
    "nextUrl (emits es (s3 b)) = nextUrl s" for es b
    using f2 p2 by (auto simp: s3_def emits_fields trace_emits prefix_def)
  have f3': "apiKeySelected (s3 b) = apiKeySelected s" "error (s3 b) = error s"
    "isLoading (s3 b) = isLoading s"
    "imagePreview (s3 b) = imagePreview s" "imageFile (s3 b) = imageFile s"
    "generatedVideoUrl (s3 b) = generatedVideoUrl s"
    "prefix (trace s) (trace (s3 b))" for b
    using f3 [of "[]" b] by (simp_all add: emits_Nil)
  from alt show "apiKeySelected s' = apiKeySelected s"
    by (auto simp: f1 f2 f3 f3' dest!: fetch_video_frame(1))
  from alt show "error s' = error s"
    by (auto simp: f1 f2 f3 f3' dest!: fetch_video_frame(2))
  from alt show "isLoading s' = isLoading s"
    by (auto simp: f1 f2 f3 f3' dest!: fetch_video_frame(3))
  from alt show "imagePreview s' = imagePreview s"
    by (auto simp: f1 f2 f3 f3' dest!: fetch_video_frame(4))
  from alt show "imageFile s' = imageFile s"
    by (auto simp: f1 f2 f3 f3' dest!: fetch_video_frame(5))
  from alt show "generatedVideoUrl s' =
      (case r of Inl err \<Rightarrow> generatedVideoUrl s | Inr u \<Rightarrow> Some (nextUrl s))"
    by (auto simp: f1 f2 f3 f3' dest!: fetch_video_frame(7) split: sum.splits)
  from alt show "prefix (trace s) (trace s')"
    by (auto simp: f1 f2 p2 f3 f3' dest!: fetch_video_frame(8)
        intro: prefix_order.trans [OF f3(7)])
  have q: "prompt s1 = prompt s" "prompt s2 = prompt s" "prompt (s3 b) = prompt s"
    "prompt (emits es (s3 b)) = prompt s" for es b
    by (simp_all add: s1_def s2_def s3_def commit_fields emits_fields)
  from alt show "prompt s' = prompt s"
    by (auto simp: q dest!: fetch_video_frame(9))
qed

lemma str_includes_append_left: "str_includes (p @ s) s"
  by (simp add: includes_sublist)

lemma fetch_message_signal:
  "str_includes (''Failed to fetch video: '' @ st) ''Requested entity was not found'' =
   str_includes st ''Requested entity was not found''"
  by simp

lemma catch_block_trace: "trace (catch_block err s) = trace s @ [ConsoleError err]"
  by (simp add: catch_block_def Let_def emit_def)

lemma catch_block_fields:
  "isLoading (catch_block err s) = isLoading s"
  "generatedVideoUrl (catch_block err s) = generatedVideoUrl s"
  "imagePreview (catch_block err s) = imagePreview s"
  "urlToRevoke (catch_block err s) = urlToRevoke s"
  "objectUrls (catch_block err s) = objectUrls s"
  "nextUrl (catch_block err s) = nextUrl s"
  "imageFile (catch_block err s) = imageFile s"
  "prompt (catch_block err s) = prompt s"
  by (simp_all add: catch_block_def Let_def emit_def)

lemma objectUrls_commit:
  "objectUrls (commit s) =
     (if generatedVideoUrl s = urlToRevoke s then objectUrls s
      else (case urlToRevoke s of
              None \<Rightarrow> objectUrls s
            | Some u \<Rightarrow> filter (\<lambda>p. fst p \<noteq> u) (objectUrls s)))"
  by (simp add: commit_def revokeObjectURL_def emit_def split: option.splits)

lemma urls_filter:
  "map fst (filter (\<lambda>p. Q (snd p)) (filter (\<lambda>p. fst p \<noteq> u) xs)) =
   filter (\<lambda>x. x \<noteq> u) (map fst (filter (\<lambda>p. Q (snd p)) xs))"
  by (induction xs) simp_all

lemma video_not_image:
  assumes "distinct (map fst (objectUrls s))" and "u \<in> set (video_urls s)"
  shows "u \<notin> set (image_urls s)"
proof
  assume "u \<in> set (image_urls s)"
  then obtain b where b: "(u, b) \<in> set (objectUrls s)" "\<not> is_video b"
    by (auto simp: image_urls_def)
  from assms(2) obtain c where c: "(u, c) \<in> set (objectUrls s)" "is_video c"
    by (auto simp: video_urls_def)
  from assms(1) b(1) c(1) have "b = c"
    by (rule eq_key_imp_eq_value)
  with b(2) c(2) show False by simp
qed

lemma video_urls_revoked:
  "map fst (filter (\<lambda>p. is_video (snd p)) (filter (\<lambda>p. fst p \<noteq> u) (objectUrls s))) =
   filter (\<lambda>x. x \<noteq> u) (video_urls s)"
  unfolding video_urls_def by (rule urls_filter)

lemma image_urls_revoked:
  "map fst (filter (\<lambda>p. \<not> is_video (snd p)) (filter (\<lambda>p. fst p \<noteq> u) (objectUrls s))) =
   filter (\<lambda>x. x \<noteq> u) (image_urls s)"
  unfolding image_urls_def by (rule urls_filter)

lemma result_slot_fresh:
  assumes "result_slot_ok s" and "generatedVideoUrl s = Some u"
  shows "u < nextUrl s" "u \<in> set (video_urls s)"
proof -
  from assms show v: "u \<in> set (video_urls s)"
    by (simp add: result_slot_ok_def)
  then obtain b where "(u, b) \<in> set (objectUrls s)"
    by (auto simp: video_urls_def)
  with assms(1) show "u < nextUrl s"
    by (auto simp: result_slot_ok_def list_all_iff)
qed




section \<open>The concrete runs, evaluated\<close>

lemma form_with_image_eq:
  "form_with_image =
     \<lparr>apiKeySelected = Some True, imageFile = Some photo, imagePreview = Some 0,
      prompt = ''uma pessoa com malas atravessando a ponte da amizade do brasil para o paraguai'',
      aspectRatio = Ratio_16_9, isLoading = False,
      loadingMessage = ''Warming up the creative engines...'',
      generatedVideoUrl = None, error = None,
      urlToRevoke = None, objectUrls = [(0, ImageBlob photo)], nextUrl = Suc 0,
      trace = [CreateObjectURL (ImageBlob photo) 0]\<rparr>"
  by (simp add: form_with_image_def handleImageChange_def checkKey_def initial_state_def
      createObjectURL_def emit_def commit_def Let_def)

lemma run_service:
  "handleGenerateVideo service None form_with_image = Some (Inr (), first_video_state)"
  by (simp add: form_with_image_eq flow_defs service_defs first_video_state_def)

lemma form_with_image_valid:
  "imageFile form_with_image = Some photo" "prompt form_with_image \<noteq> []"
  by (simp_all add: form_with_image_eq)

lemma never_done_pending:
  "pending_run service_never_done n job_pending (replicate k job_pending)"
  by (induction k arbitrary: n) (simp_all add: service_never_done_def service_def job_pending_def)




lemma service_run:
  "newGoogleGenAI service (API_KEY service) = None"
  "readAsDataURL service f = Inr ''data:image/jpeg;base64,AAAA''"
  "generateVideos service r = Inr job_pending"
  "pending_run service 0 job_pending [job_pending, job_pending, job_done]"
  "opDone (last (job_pending # [job_pending, job_pending, job_done]))"
  "videoUri (last (job_pending # [job_pending, job_pending, job_done])) =
     Some ''https://service.test/files/1:download?alt=media''"
  "''https://service.test/files/1:download?alt=media'' \<noteq> []"
  "API_KEY service = Some ''k3y''" "''k3y'' \<noteq> []"
  "fetch service (''https://service.test/files/1:download?alt=media'' @ ''&key='' @ ''k3y'') =
     Inr \<lparr>ok = True, statusText = ''OK'', blobResult = Inr ''video bytes''\<rparr>"
  by (simp_all add: service_def job_pending_def job_done_def)

section \<open>The object URLs of the result\<close>

text \<open>
  The result slot is in order at the start and stays in order when the key is checked, an
  image is chosen or "Create Another" is clicked: the cleanup of the effect revokes the
  video URL when the slot is emptied, and when the component is unmounted no video URL
  stays alive. (For a call of \<open>handleGenerateVideo\<close> that ends with a video this is part of
  the statement on the finished job below.)
\<close>

lemma result_slot_ok_initial: "result_slot_ok initial_state"
  by (simp add: result_slot_ok_def video_urls_def initial_state_def)

lemma result_slot_ok_checkKey: "result_slot_ok s \<Longrightarrow> result_slot_ok (checkKey aistudio s)"
  by (auto simp: result_slot_ok_def video_urls_def checkKey_def emit_def
      split: option.splits sum.splits)

lemma result_slot_ok_createAnother:
  assumes "result_slot_ok s"
  shows "result_slot_ok (createAnother s)" "video_urls (createAnother s) = []"
    "image_urls (createAnother s) = image_urls s"
proof -
  define s0 where "s0 = s\<lparr>generatedVideoUrl := None, imageFile := None, imagePreview := None\<rparr>"
  have c: "createAnother s = commit s0"
    by (simp add: createAnother_def s0_def)
  have o: "objectUrls (commit s0) =
      (case generatedVideoUrl s of None \<Rightarrow> objectUrls s
       | Some u \<Rightarrow> filter (\<lambda>p. fst p \<noteq> u) (objectUrls s))"
    using assms by (auto simp: objectUrls_commit s0_def result_slot_ok_def split: option.splits)
  have f: "generatedVideoUrl (commit s0) = None" "urlToRevoke (commit s0) = None"
    "nextUrl (commit s0) = nextUrl s"
    by (simp_all add: commit_fields s0_def)
  show v: "video_urls (createAnother s) = []"
  proof (cases "generatedVideoUrl s")
    case None
    with assms show ?thesis
      unfolding c video_urls_def o by (simp add: result_slot_ok_def video_urls_def)
  next
    case (Some u)
    with assms have "video_urls s = [u]" by (simp add: result_slot_ok_def)
    then have "filter (\<lambda>x. x \<noteq> u) (video_urls s) = []" by simp
    then show ?thesis
      unfolding c video_urls_def o Some option.case video_urls_revoked .
  qed
  show "image_urls (createAnother s) = image_urls s"
  proof (cases "generatedVideoUrl s")
    case None
    then show ?thesis
      unfolding c image_urls_def o by simp
  next
    case (Some u)
    from result_slot_fresh(2) [OF assms Some] assms
    have "u \<notin> set (image_urls s)"
      by (intro video_not_image) (simp_all add: result_slot_ok_def)
    then have "filter (\<lambda>x. x \<noteq> u) (image_urls s) = image_urls s"
      by (auto simp: filter_id_conv)
    then show ?thesis
      unfolding c o Some option.case image_urls_def image_urls_revoked [unfolded image_urls_def] .
  qed
  have d: "distinct (map fst (objectUrls (commit s0)))"
    using assms unfolding o by (auto simp: result_slot_ok_def distinct_map_filter split: option.splits)
  have l: "list_all (\<lambda>p. fst p < nextUrl (commit s0)) (objectUrls (commit s0))"
    using assms unfolding o f by (auto simp: result_slot_ok_def list_all_iff split: option.splits)
  show "result_slot_ok (createAnother s)"
    using v d l f unfolding c by (simp add: result_slot_ok_def)
qed

lemma result_slot_ok_unmount:
  assumes "result_slot_ok s"
  shows "video_urls (unmount s) = []"
proof (cases "generatedVideoUrl s")
  case None
  with assms show ?thesis
    by (simp add: unmount_def result_slot_ok_def)
next
  case (Some u)
  with assms have r: "urlToRevoke s = Some u" and "video_urls s = [u]"
    by (simp_all add: result_slot_ok_def)
  then have "filter (\<lambda>x. x \<noteq> u) (video_urls s) = []" by simp
  then have "map fst (filter (\<lambda>p. is_video (snd p)) (filter (\<lambda>p. fst p \<noteq> u) (objectUrls s))) = []"
    unfolding video_urls_revoked .
  then show ?thesis
    unfolding video_urls_def by (simp add: unmount_def r revokeObjectURL_def emit_def del: filter_filter)
qed

lemma result_slot_ok_handleImageChange:
  assumes "result_slot_ok s"
  shows "result_slot_ok (handleImageChange chosen s)"
proof (cases chosen)
  case None
  with assms show ?thesis by (simp add: handleImageChange_def)
next
  case (Some f)
  define n where "n = nextUrl s"
  define s4 where "s4 = s\<lparr>generatedVideoUrl := None, imageFile := Some f,
      objectUrls := objectUrls s @ [(n, ImageBlob f)], nextUrl := Suc n,
      trace := trace s @ [CreateObjectURL (ImageBlob f) n], imagePreview := Some n\<rparr>"
  have e: "s\<lparr>generatedVideoUrl := None\<rparr> = s" if "generatedVideoUrl s = None"
  proof -
    have "s\<lparr>generatedVideoUrl := generatedVideoUrl s\<rparr> = s" by simp
    then show ?thesis by (simp only: that)
  qed
  have h: "handleImageChange chosen s = commit s4"
  proof (cases "generatedVideoUrl s")
    case None
    have "s4 = (s\<lparr>generatedVideoUrl := None\<rparr>)\<lparr>imageFile := Some f,
      objectUrls := objectUrls s @ [(n, ImageBlob f)], nextUrl := Suc n,
      trace := trace s @ [CreateObjectURL (ImageBlob f) n], imagePreview := Some n\<rparr>"
      by (simp add: s4_def)
    then have "s4 = s\<lparr>imageFile := Some f,
      objectUrls := objectUrls s @ [(n, ImageBlob f)], nextUrl := Suc n,
      trace := trace s @ [CreateObjectURL (ImageBlob f) n], imagePreview := Some n\<rparr>"
      by (simp only: e [OF None])
    then show ?thesis
      using None
      by (simp add: handleImageChange_def Some createObjectURL_def emit_def Let_def n_def)
  next
    case (Some u)
    then show ?thesis
      by (simp add: handleImageChange_def \<open>chosen = Some f\<close> createObjectURL_def emit_def
          Let_def s4_def n_def)
  qed
  have o: "objectUrls (commit s4) =
      (case generatedVideoUrl s of None \<Rightarrow> objectUrls s
       | Some u \<Rightarrow> filter (\<lambda>p. fst p \<noteq> u) (objectUrls s)) @ [(n, ImageBlob f)]"
    using assms result_slot_fresh(1) [OF assms]
    by (auto simp: objectUrls_commit s4_def result_slot_ok_def n_def split: option.splits)
  have f: "generatedVideoUrl (commit s4) = None" "urlToRevoke (commit s4) = None"
    "nextUrl (commit s4) = Suc n"
    by (simp_all add: commit_fields s4_def)
  have v: "video_urls (commit s4) = []"
  proof (cases "generatedVideoUrl s")
    case None
    with assms show ?thesis
      unfolding video_urls_def o by (simp add: result_slot_ok_def video_urls_def)
  next
    case (Some u)
    with assms have "video_urls s = [u]" by (simp add: result_slot_ok_def)
    then have "filter (\<lambda>x. x \<noteq> u) (video_urls s) = []" by simp
    then have "map fst (filter (\<lambda>p. is_video (snd p))
        (filter (\<lambda>p. fst p \<noteq> u) (objectUrls s))) = []"
      unfolding video_urls_revoked .
    then show ?thesis
      unfolding video_urls_def o Some option.case by (simp del: filter_filter)
  qed
  have lt: "list_all (\<lambda>p. fst p < n) (objectUrls s)" and di: "distinct (map fst (objectUrls s))"
    using assms by (simp_all add: result_slot_ok_def n_def)
  then have nin: "n \<notin> fst ` set (objectUrls s)"
    by (auto simp: list_all_iff)
  have d: "distinct (map fst (objectUrls (commit s4)))"
    using di nin unfolding o by (auto simp: distinct_map_filter split: option.splits)
  have l: "list_all (\<lambda>p. fst p < nextUrl (commit s4)) (objectUrls (commit s4))"
    using lt unfolding o f by (auto simp: list_all_iff split: option.splits)
  show ?thesis
    using v d l f unfolding h by (simp add: result_slot_ok_def)
qed

section \<open>The object URLs of the preview\<close>

text \<open>
  C1, on a run of the component. The user chooses an image, generates a video, clicks
  "Create Another" and chooses a second image; each action is offered by the view at
  that moment. The video URL is revoked when the result slot is emptied, as the effect of
  lines 86 to 93 provides. The URL of the first preview is never revoked: after the
  second choice both preview URLs are alive, the one of the first image and the one of
  the second image, which the preview slot holds.
\<close>

theorem preview_urls_leak:
  "offered (checkKey None initial_state) ChooseImage \<and>
   offered form_with_image ClickGenerate \<and>
   after_first_video = Some first_video_state \<and>
   offered first_video_state ClickCreateAnother \<and>
   offered (createAnother first_video_state) ChooseImage \<and>
   map_option imagePreview after_second_image = Some (Some 2) \<and>
   map_option objectUrls after_second_image =
     Some [(0, ImageBlob photo), (2, ImageBlob photo2)] \<and>
   map_option image_urls after_second_image = Some [0, 2] \<and>
   map_option (filter (\<lambda>e. e = RevokeObjectURL 0 \<or> e = RevokeObjectURL 1) \<circ> trace)
     after_second_image = Some [RevokeObjectURL 1]"
proof -
  have a: "after_first_video = Some first_video_state"
    by (simp add: after_first_video_def run_service)
  have c: "createAnother first_video_state =
      first_video_state\<lparr>generatedVideoUrl := None, imageFile := None, imagePreview := None,
        urlToRevoke := None, objectUrls := [(0, ImageBlob photo)],
        trace := trace first_video_state @ [RevokeObjectURL 1]\<rparr>"
    by (simp add: createAnother_def commit_def revokeObjectURL_def emit_def first_video_state_def)
  have o: "offered (checkKey None initial_state) ChooseImage"
    "offered form_with_image ClickGenerate"
    "offered first_video_state ClickCreateAnother"
    "offered (createAnother first_video_state) ChooseImage"
    unfolding c
    by (simp_all add: offered_def renderContent_def isGenerateDisabled_def checkKey_def
        initial_state_def form_with_image_eq first_video_state_def)
  have s: "after_second_image = Some (handleImageChange (Some photo2) (createAnother first_video_state))"
    by (simp add: after_second_image_def a)
  have r: "imagePreview (handleImageChange (Some photo2) (createAnother first_video_state)) = Some 2"
    "objectUrls (handleImageChange (Some photo2) (createAnother first_video_state)) =
       [(0, ImageBlob photo), (2, ImageBlob photo2)]"
    "filter (\<lambda>e. e = RevokeObjectURL 0 \<or> e = RevokeObjectURL 1)
       (trace (handleImageChange (Some photo2) (createAnother first_video_state))) =
       [RevokeObjectURL 1]"
    unfolding c
    by (simp_all add: handleImageChange_def createObjectURL_def commit_def emit_def Let_def
        first_video_state_def)
  have i: "image_urls (handleImageChange (Some photo2) (createAnother first_video_state)) = [0, 2]"
    by (simp add: image_urls_def r(2))
  from a o r i show ?thesis by (simp add: s)
qed

section \<open>A call while a flow is running\<close>

text \<open>
  C2, as the code has it. The handler has no guard of its own against a call made while
  an earlier flow is running: for a request with an image and a prompt it does the same
  whether the loading flag is set or not, so such a call starts a second flow. The only
  guard is in what is rendered: while the loading flag is set, \<open>isGenerateDisabled\<close>
  holds and the form with the button is not shown.
\<close>

theorem no_reentrancy_guard:
  "(isLoading s \<longrightarrow> isGenerateDisabled s \<and> \<not> offered s ClickGenerate) \<and>
   (imageFile s \<noteq> None \<and> prompt s \<noteq> [] \<longrightarrow>
      handleGenerateVideo env captured (s\<lparr>isLoading := True\<rparr>) =
      handleGenerateVideo env captured (s\<lparr>isLoading := False\<rparr>))"
  by (auto simp: isGenerateDisabled_def offered_def renderContent_def handleGenerateVideo_def
      begin_flow_isLoading split: option.splits view.splits)

theorem no_reentrancy_guard_witness:
  "isLoading flow_begun \<and> isGenerateDisabled flow_begun \<and> \<not> offered flow_begun ClickGenerate \<and>
   handleGenerateVideo service None (flow_begun\<lparr>isLoading := True\<rparr>) =
   handleGenerateVideo service None (flow_begun\<lparr>isLoading := False\<rparr>)"
proof -
  have l: "isLoading flow_begun" "imageFile flow_begun \<noteq> None \<and> prompt flow_begun \<noteq> []"
    by (simp_all add: flow_begun_def begin_flow_fields form_with_image_valid)
  from no_reentrancy_guard [of flow_begun service None] l
  show ?thesis by blast
qed

text \<open>
  The claim as it is written fails: a first call has begun and set the loading flag, and
  a second call of the handler in that state is not rejected; it submits a job, polls
  and fetches like the first.
\<close>

theorem reentrant_call_counterexample:
  "isLoading flow_begun \<and>
   handleGenerateVideo service None flow_begun = Some (Inr (), first_video_state) \<and>
   filter is_network_call (new_events flow_begun first_video_state) =
     [GenerateVideos (request_of form_with_image photo (Some ''AAAA'')),
      GetVideosOperation job_pending, GetVideosOperation job_pending,
      GetVideosOperation job_pending,
      Fetch ''https://service.test/files/1:download?alt=media&key=k3y'', ReadBlob]"
proof -
  have "handleGenerateVideo service None flow_begun = Some (Inr (), first_video_state)"
    by (simp add: flow_begun_def form_with_image_eq flow_defs service_defs first_video_state_def)
  moreover have "isLoading flow_begun"
    by (simp add: flow_begun_def begin_flow_fields)
  moreover have "trace flow_begun = [CreateObjectURL (ImageBlob photo) 0]"
    by (simp add: flow_begun_def begin_flow_fields form_with_image_eq)
  then have "filter is_network_call (new_events flow_begun first_video_state) =
     [GenerateVideos (request_of form_with_image photo (Some ''AAAA'')),
      GetVideosOperation job_pending, GetVideosOperation job_pending,
      GetVideosOperation job_pending,
      Fetch ''https://service.test/files/1:download?alt=media&key=k3y'', ReadBlob]"
    by (simp add: new_events_def first_video_state_def)
  ultimately show ?thesis by blast
qed

section \<open>The classification of failures\<close>

text \<open>
  C3. Whatever is thrown in the body of the \<open>try\<close> (by the client, the reading of the file,
  the submission, a status request, the fetch or the reading of the video), the handler
  settles, and: if the message of the error contains \<open>Requested entity was not found\<close>,
  the error of the state is the message about the invalid key and the key flag is false;
  otherwise the error is \<open>Failed to generate video:\<close> followed by the message, and the key
  flag is the one from before the call. The message of a thrown value that is not an
  \<open>Error\<close> is \<open>An unknown error occurred.\<close>
\<close>

theorem failure_classified:
  assumes "imageFile s = Some f" and "prompt s \<noteq> []"
    and "try_body env f (begin_flow captured s) = Some (Inl err, s4)"
  shows "\<exists>s'. handleGenerateVideo env captured s = Some (Inr (), s') \<and>
    (if str_includes (errorMessageOf err) ''Requested entity was not found''
     then error s' = Some ''Your API key is invalid or not configured. Please select a valid key.'' \<and>
          apiKeySelected s' = Some False
     else error s' = Some (''Failed to generate video: '' @ errorMessageOf err) \<and>
          apiKeySelected s' = apiKeySelected s)"
proof -
  have k: "apiKeySelected s4 = apiKeySelected s"
    using try_body_frame(1) [OF assms(3)] by (simp add: begin_flow_fields)
  have h: "handleGenerateVideo env captured s =
      Some (Inr (), commit ((catch_block err s4)\<lparr>isLoading := False\<rparr>))"
    using handler_of_try [OF assms] by simp
  show ?thesis
  proof (cases "str_includes (errorMessageOf err) ''Requested entity was not found''")
    case True
    show ?thesis
      unfolding h catch_block_auth [OF True]
      using True by (simp add: commit_fields emit_emits emits_fields)
  next
    case False
    show ?thesis
      unfolding h catch_block_plain [OF False]
      using False k by (simp add: commit_fields emit_emits emits_fields)
  qed
qed

theorem failure_classified_witness:
  "(\<exists>s'. handleGenerateVideo service_rejects_key None form_with_image = Some (Inr (), s') \<and>
      error s' = Some ''Your API key is invalid or not configured. Please select a valid key.'' \<and>
      apiKeySelected s' = Some False) \<and>
   (\<exists>s'. handleGenerateVideo service_over_quota None form_with_image = Some (Inr (), s') \<and>
      error s' = Some ''Failed to generate video: 429: quota exceeded'' \<and>
      apiKeySelected s' = Some True) \<and>
   (\<exists>s'. handleGenerateVideo service_read_fails None form_with_image = Some (Inr (), s') \<and>
      error s' = Some ''Failed to generate video: An unknown error occurred.'' \<and>
      apiKeySelected s' = Some True)"
proof -
  have "\<exists>s4. try_body service_rejects_key photo (begin_flow None form_with_image) =
      Some (Inl (JsError ''404: Requested entity was not found.''), s4)"
    by (simp add: form_with_image_eq flow_defs service_defs)
  then obtain s4 where a: "try_body service_rejects_key photo (begin_flow None form_with_image) =
      Some (Inl (JsError ''404: Requested entity was not found.''), s4)" ..
  have "\<exists>s4. try_body service_over_quota photo (begin_flow None form_with_image) =
      Some (Inl (JsError ''429: quota exceeded''), s4)"
    by (simp add: form_with_image_eq flow_defs service_defs)
  then obtain s5 where b: "try_body service_over_quota photo (begin_flow None form_with_image) =
      Some (Inl (JsError ''429: quota exceeded''), s5)" ..
  have "\<exists>s4. try_body service_read_fails photo (begin_flow None form_with_image) =
      Some (Inl NonError, s4)"
    by (simp add: form_with_image_eq flow_defs service_defs)
  then obtain s6 where c: "try_body service_read_fails photo (begin_flow None form_with_image) =
      Some (Inl NonError, s6)" ..
  have k: "apiKeySelected form_with_image = Some True"
    by (simp add: form_with_image_eq)
  from failure_classified [OF form_with_image_valid a]
    failure_classified [OF form_with_image_valid b]
    failure_classified [OF form_with_image_valid c]
  show ?thesis by (simp add: errorMessageOf_def k)
qed

section \<open>A request without an image or without a prompt\<close>

text \<open>
  C4. When the image or the prompt is missing, the handler settles at once: the state is
  the old one with the validation message as its error, nothing else changes, and no
  call is made (no reading of the file, no submission, no status request, no fetch).
\<close>

theorem validation_failure:
  "imageFile s = None \<or> prompt s = [] \<Longrightarrow>
   handleGenerateVideo env captured s =
     Some (Inr (), s\<lparr>error := Some ''Please upload an image and provide a prompt.''\<rparr>) \<and>
   new_events s (s\<lparr>error := Some ''Please upload an image and provide a prompt.''\<rparr>) = []"
  by (auto simp: handleGenerateVideo_def new_events_def split: option.splits)

theorem validation_failure_witness:
  "prompt (form_with_image\<lparr>prompt := []\<rparr>) = [] \<and>
   handleGenerateVideo service None (form_with_image\<lparr>prompt := []\<rparr>) =
     Some (Inr (), form_with_image
        \<lparr>prompt := [], error := Some ''Please upload an image and provide a prompt.''\<rparr>) \<and>
   handleGenerateVideo service None (checkKey None initial_state) =
     Some (Inr (), (checkKey None initial_state)
        \<lparr>error := Some ''Please upload an image and provide a prompt.''\<rparr>)"
proof -
  have a: "imageFile (form_with_image\<lparr>prompt := []\<rparr>) = None \<or>
      prompt (form_with_image\<lparr>prompt := []\<rparr>) = []"
    by simp
  have b: "imageFile (checkKey None initial_state) = None \<or>
      prompt (checkKey None initial_state) = []"
    by (simp add: checkKey_def initial_state_def)
  from validation_failure [OF a, of service None] validation_failure [OF b, of service None]
  show ?thesis by simp
qed

section \<open>A finished job with a video\<close>




section \<open>A finished job without a video\<close>

text \<open>
  C6. When the job is done (at submission or after any number of status requests) and
  carries no video URI, or an empty one, the handler ends with the error message of the
  missing video; the loading flag is cleared, the key flag is untouched, the result slot
  gets no new URL, and the calls to the service are the submission and the status
  requests made before the job was done: no request after it, and no fetch.
\<close>

theorem missing_result:
  assumes "imageFile s = Some f" and "prompt s \<noteq> []"
    and "newGoogleGenAI env (API_KEY env) = None"
    and "readAsDataURL env f = Inr dataUrl"
    and "generateVideos env (request_of s f (at_index (split_on CHR '','' dataUrl) 1)) = Inr operation"
    and "pending_run env 0 operation ops"
    and "opDone (last (operation # ops))"
    and "\<not> truthy (videoUri (last (operation # ops)))"
  shows "\<exists>s'. handleGenerateVideo env captured s = Some (Inr (), s') \<and>
    error s' = Some ''Failed to generate video: Video generation completed, but no video URI was found.'' \<and>
    \<not> isLoading s' \<and>
    apiKeySelected s' = apiKeySelected s \<and>
    generatedVideoUrl s' = (if captured \<noteq> None then None else generatedVideoUrl s) \<and>
    filter is_network_call (new_events s s') =
      GenerateVideos (request_of s f (at_index (split_on CHR '','' dataUrl) 1)) #
      map GetVideosOperation (butlast (operation # ops)) \<and>
    filter is_create (new_events s s') = []"
proof -
  define fin where "fin = last (operation # ops)"
  define pol where "pol = butlast (operation # ops)"
  define req where "req = request_of s f (at_index (split_on CHR '','' dataUrl) 1)"
  define b where "b = begin_flow captured s"
  define s4 where "s4 = emits (GenerateVideos req # poll_events pol)
          (commit (emits [NewGoogleGenAI (API_KEY env), ReadAsDataURL f] b))"
  define err where "err = JsError ''Video generation completed, but no video URI was found.''"
  define s' where "s' = commit ((catch_block err s4)\<lparr>isLoading := False\<rparr>)"
  have tb: "try_body env f (begin_flow captured s) = Some (fetch_video env fin s4)"
    unfolding s4_def b_def by (rule flow_polled [OF assms(3-7) fin_def pol_def req_def])
  have nt: "\<not> truthy (videoUri fin)"
    unfolding fin_def by (rule assms(8))
  have fv: "fetch_video env fin s4 = (Inl err, s4)"
    using nt by (simp add: fetch_video_def err_def)
  have h: "handleGenerateVideo env captured s = Some (Inr (), s')"
    using handler_of_try [OF assms(1,2), of env captured "Inl err" s4] tb fv
    by (simp add: s'_def)
  have ni: "\<not> str_includes (errorMessageOf err) ''Requested entity was not found''"
    by (simp add: err_def errorMessageOf_def)
  note cb = catch_block_plain [OF ni]
  have tb0: "trace b = trace s"
    by (simp add: b_def begin_flow_def Let_def)
  have pt: "prefix (trace s) (trace s')"
    unfolding s'_def
    by (rule prefix_order.trans [OF _ prefix_trace_commit])
       (simp add: cb emit_def trace_emits s4_def tb0 [symmetric]
          prefix_order.trans [OF _ prefix_trace_commit])
  have nw: "filter is_network_call (trace s') = filter is_network_call (trace s) @
      GenerateVideos req # map GetVideosOperation pol"
    by (simp add: s'_def s4_def filter_trace_commit cb emit_def trace_emits tb0
        filter_poll_events_network)
  have cr: "filter is_create (trace s') = filter is_create (trace s)"
    by (simp add: s'_def s4_def filter_trace_commit cb emit_def trace_emits tb0
        filter_poll_events_create)
  have fl: "error s' = Some ''Failed to generate video: Video generation completed, but no video URI was found.''"
    "\<not> isLoading s'" "apiKeySelected s' = apiKeySelected s"
    "generatedVideoUrl s' = (if captured \<noteq> None then None else generatedVideoUrl s)"
    unfolding s'_def cb
    by (simp_all add: emit_emits commit_fields emits_fields s4_def b_def
        begin_flow_fields err_def errorMessageOf_def)
  show ?thesis
    unfolding req_def [symmetric] pol_def [symmetric]
    using h fl by (simp add: new_events_filter [OF pt] nw cr)
qed

theorem missing_result_witness:
  "\<exists>s'. handleGenerateVideo service_no_video None form_with_image = Some (Inr (), s') \<and>
     error s' = Some ''Failed to generate video: Video generation completed, but no video URI was found.'' \<and>
     \<not> isLoading s' \<and>
     filter is_network_call (new_events form_with_image s') =
       [GenerateVideos (request_of form_with_image photo (Some ''AAAA'')),
        GetVideosOperation job_pending, GetVideosOperation job_pending,
        GetVideosOperation job_pending]"
proof -
  have 1: "imageFile form_with_image = Some photo" "prompt form_with_image \<noteq> []"
    by (simp_all add: form_with_image_eq)
  have 2: "newGoogleGenAI service_no_video (API_KEY service_no_video) = None"
    "readAsDataURL service_no_video photo = Inr ''data:image/jpeg;base64,AAAA''"
    by (simp_all add: service_no_video_def service_def)
  have 3: "at_index (split_on CHR '','' ''data:image/jpeg;base64,AAAA'') 1 = Some ''AAAA''"
    by (simp add: at_index_def)
  have 4: "generateVideos service_no_video
      (request_of form_with_image photo
         (at_index (split_on CHR '','' ''data:image/jpeg;base64,AAAA'') 1)) = Inr job_pending"
    by (simp add: service_no_video_def service_def)
  have 5: "pending_run service_no_video 0 job_pending [job_pending, job_pending, job_empty]"
    by (simp add: service_no_video_def service_def job_pending_def)
  have 6: "opDone (last (job_pending # [job_pending, job_pending, job_empty]))"
    "\<not> truthy (videoUri (last (job_pending # [job_pending, job_pending, job_empty])))"
    by (simp_all add: job_empty_def)
  from missing_result [OF 1 2 4 5 6, of None]
  show ?thesis by (auto simp: at_index_def)
qed

section \<open>A fetch that is answered with an error status\<close>

text \<open>
  C7, as the code has it. When the job is done with a video URI, the key is not empty and
  the response of the fetch is not OK, the handler settles with the loading flag cleared
  and the result slot without a new URL (no object URL is created). The error thrown
  is \<open>Failed to fetch video:\<close> followed by the status text, and the catch block classifies
  it like every other error: if the status text contains \<open>Requested entity was not found\<close>,
  the state carries the message about the invalid key, which does not show the status
  text, and the key flag is false; otherwise the state carries
  \<open>Failed to generate video: Failed to fetch video:\<close> followed by the status text, and the key
  flag is unchanged.
\<close>

theorem fetch_not_ok:
  assumes "imageFile s = Some f" and "prompt s \<noteq> []"
    and "newGoogleGenAI env (API_KEY env) = None"
    and "readAsDataURL env f = Inr dataUrl"
    and "generateVideos env (request_of s f (at_index (split_on CHR '','' dataUrl) 1)) = Inr operation"
    and "pending_run env 0 operation ops"
    and "opDone (last (operation # ops))"
    and "videoUri (last (operation # ops)) = Some uri" and "uri \<noteq> []"
    and "API_KEY env = Some key" and "key \<noteq> []"
    and "fetch env (uri @ ''&key='' @ key) = Inr videoResponse"
    and "\<not> ok videoResponse"
  shows "\<exists>s'. handleGenerateVideo env captured s = Some (Inr (), s') \<and>
    \<not> isLoading s' \<and>
    generatedVideoUrl s' = (if captured \<noteq> None then None else generatedVideoUrl s) \<and>
    filter is_create (new_events s s') = [] \<and>
    (if str_includes (statusText videoResponse) ''Requested entity was not found''
     then error s' = Some ''Your API key is invalid or not configured. Please select a valid key.'' \<and>
          apiKeySelected s' = Some False
     else error s' = Some (''Failed to generate video: Failed to fetch video: '' @
                             statusText videoResponse) \<and>
          str_includes (''Failed to generate video: Failed to fetch video: '' @
                          statusText videoResponse) (statusText videoResponse) \<and>
          apiKeySelected s' = apiKeySelected s)"
proof -
  define fin where "fin = last (operation # ops)"
  define pol where "pol = butlast (operation # ops)"
  define req where "req = request_of s f (at_index (split_on CHR '','' dataUrl) 1)"
  define b where "b = begin_flow captured s"
  define s4 where "s4 = emits (GenerateVideos req # poll_events pol)
          (commit (emits [NewGoogleGenAI (API_KEY env), ReadAsDataURL f] b))"
  define st where "st = statusText videoResponse"
  define err where "err = JsError (''Failed to fetch video: '' @ st)"
  define s5 where "s5 = emits [Fetch (uri @ ''&key='' @ key)] s4"
  define s' where "s' = commit ((catch_block err s5)\<lparr>isLoading := False\<rparr>)"
  have tb: "try_body env f (begin_flow captured s) = Some (fetch_video env fin s4)"
    unfolding s4_def b_def by (rule flow_polled [OF assms(3-7) fin_def pol_def req_def])
  have u: "videoUri fin = Some uri"
    unfolding fin_def by (rule assms(8))
  have fv: "fetch_video env fin s4 = (Inl err, s5)"
    using u assms(9-13) by (simp add: fetch_video_def err_def s5_def st_def emit_emits)
  have h: "handleGenerateVideo env captured s = Some (Inr (), s')"
    using handler_of_try [OF assms(1,2), of env captured "Inl err" s5] tb fv
    by (simp add: s'_def)
  have m: "errorMessageOf err = ''Failed to fetch video: '' @ st"
    by (simp add: err_def errorMessageOf_def)
  have t5: "trace s5 = trace s @ [NewGoogleGenAI (API_KEY env), ReadAsDataURL f] @
      (drop (length (trace s) + 2)
         (trace (commit (emits [NewGoogleGenAI (API_KEY env), ReadAsDataURL f] b)))) @
      GenerateVideos req # poll_events pol @ [Fetch (uri @ ''&key='' @ key)]"
    using prefix_trace_commit [of "emits [NewGoogleGenAI (API_KEY env), ReadAsDataURL f] b"]
    by (auto simp: s5_def s4_def trace_emits b_def begin_flow_fields prefix_def)
  have pt: "prefix (trace s) (trace s')"
    unfolding s'_def
    by (rule prefix_order.trans [OF _ prefix_trace_commit]) (simp add: catch_block_trace t5)
  have c4: "filter is_create (trace s4) = filter is_create (trace s)"
    by (simp add: s4_def trace_emits filter_trace_commit filter_poll_events_create b_def
        begin_flow_fields)
  have cr: "filter is_create (trace s') = filter is_create (trace s)"
    by (simp add: s'_def filter_trace_commit catch_block_trace s5_def trace_emits c4)
  have fl: "\<not> isLoading s'"
    "generatedVideoUrl s' = (if captured \<noteq> None then None else generatedVideoUrl s)"
    by (simp_all add: s'_def commit_fields catch_block_fields s5_def s4_def b_def emits_fields
        begin_flow_fields)
  have k: "apiKeySelected s5 = apiKeySelected s"
    by (simp add: s5_def s4_def b_def emits_fields commit_fields begin_flow_fields)
  have cl: "if str_includes st ''Requested entity was not found''
     then error s' = Some ''Your API key is invalid or not configured. Please select a valid key.'' \<and>
          apiKeySelected s' = Some False
     else error s' = Some (''Failed to generate video: Failed to fetch video: '' @ st) \<and>
          apiKeySelected s' = apiKeySelected s"
  proof (cases "str_includes st ''Requested entity was not found''")
    case True
    then have a: "str_includes (errorMessageOf err) ''Requested entity was not found''"
      unfolding m fetch_message_signal .
    show ?thesis
      unfolding s'_def catch_block_auth [OF a]
      using True by (simp add: commit_fields emit_emits emits_fields)
  next
    case False
    then have a: "\<not> str_includes (errorMessageOf err) ''Requested entity was not found''"
      unfolding m fetch_message_signal .
    show ?thesis
      unfolding s'_def catch_block_plain [OF a]
      using False k by (simp add: commit_fields emit_emits emits_fields m)
  qed
  have inc: "str_includes (''Failed to generate video: Failed to fetch video: '' @ st) st"
    by (rule str_includes_append_left)
  show ?thesis
    unfolding st_def [symmetric]
    using h fl cl inc by (auto simp: new_events_filter [OF pt] cr)
qed

theorem fetch_not_ok_witness:
  "\<exists>s'. handleGenerateVideo service_fetch_forbidden None form_with_image = Some (Inr (), s') \<and>
     error s' = Some ''Failed to generate video: Failed to fetch video: Forbidden'' \<and>
     apiKeySelected s' = Some True \<and> generatedVideoUrl s' = None \<and> \<not> isLoading s' \<and>
     filter is_create (new_events form_with_image s') = []"
proof -
  have 2: "newGoogleGenAI service_fetch_forbidden (API_KEY service_fetch_forbidden) = None"
    "readAsDataURL service_fetch_forbidden photo = Inr ''data:image/jpeg;base64,AAAA''"
    by (simp_all add: service_defs)
  have 4: "generateVideos service_fetch_forbidden
      (request_of form_with_image photo
         (at_index (split_on CHR '','' ''data:image/jpeg;base64,AAAA'') 1)) = Inr job_pending"
    by (simp add: service_fetch_forbidden_def service_def)
  have 5: "pending_run service_fetch_forbidden 0 job_pending [job_pending, job_pending, job_done]"
    by (simp add: service_fetch_forbidden_def service_def job_pending_def)
  have 6: "opDone (last (job_pending # [job_pending, job_pending, job_done]))"
    "videoUri (last (job_pending # [job_pending, job_pending, job_done])) =
       Some ''https://service.test/files/1:download?alt=media''"
    "''https://service.test/files/1:download?alt=media'' \<noteq> []"
    "API_KEY service_fetch_forbidden = Some ''k3y''" "''k3y'' \<noteq> []"
    by (simp_all add: job_done_def service_fetch_forbidden_def service_def)
  define resp where "resp = \<lparr>ok = False, statusText = ''Forbidden'', blobResult = Inl NonError\<rparr>"
  have 7: "fetch service_fetch_forbidden
      (''https://service.test/files/1:download?alt=media'' @ ''&key='' @ ''k3y'') = Inr resp"
    "\<not> ok resp"
    by (simp_all add: service_fetch_forbidden_def service_def resp_def)
  have k: "apiKeySelected form_with_image = Some True" "generatedVideoUrl form_with_image = None"
    by (simp_all add: form_with_image_eq)
  have st: "statusText resp = ''Forbidden''" by (simp add: resp_def)
  have ni: "\<not> str_includes ''Forbidden'' ''Requested entity was not found''"
    by simp
  from fetch_not_ok [OF form_with_image_valid 2 4 5 6 7, of None]
  obtain s' where s': "handleGenerateVideo service_fetch_forbidden None form_with_image = Some (Inr (), s')"
    "\<not> isLoading s'" "generatedVideoUrl s' = generatedVideoUrl form_with_image"
    "filter is_create (new_events form_with_image s') = []"
    "if str_includes ''Forbidden'' ''Requested entity was not found''
     then error s' = Some ''Your API key is invalid or not configured. Please select a valid key.'' \<and>
          apiKeySelected s' = Some False
     else error s' = Some (''Failed to generate video: Failed to fetch video: '' @ ''Forbidden'') \<and>
          str_includes (''Failed to generate video: Failed to fetch video: '' @ ''Forbidden'') ''Forbidden'' \<and>
          apiKeySelected s' = apiKeySelected form_with_image"
    unfolding st by auto
  from s'(5) have "error s' = Some (''Failed to generate video: Failed to fetch video: '' @ ''Forbidden'')"
    "apiKeySelected s' = apiKeySelected form_with_image"
    unfolding if_not_P [OF ni] by blast+
  with s'(1-4) k show ?thesis by simp
qed

text \<open>
  The claim as it is written fails when the status text contains the marker of the key
  check: the flow ends with the message about the invalid key, which does not contain
  the status text, and with the key flag set to false.
\<close>

theorem fetch_not_ok_counterexample:
  "map_option (error \<circ> snd) (handleGenerateVideo service_fetch_not_found None form_with_image) =
     Some (Some ''Your API key is invalid or not configured. Please select a valid key.'') \<and>
   \<not> str_includes ''Your API key is invalid or not configured. Please select a valid key.''
       ''Requested entity was not found'' \<and>
   map_option (apiKeySelected \<circ> snd)
     (handleGenerateVideo service_fetch_not_found None form_with_image) = Some (Some False)"
  by (simp add: form_with_image_eq flow_defs service_defs)

section \<open>Polling until the job is done\<close>

text \<open>
  C8. While the handle is not done the loop goes on: for every run of status requests,
  of any length, in which each handle but the last is not done and the service answers
  with the next handle, the loop has waited 10000 ms and then requested the status with
  the current handle, once for each handle but the last, and continues with the last
  handle; if the last handle is done, the loop ends there with it. There is no bound on
  the number of rounds: if the handle is never done, the loop never ends.
\<close>

theorem polls_until_done:
  "(pending_run env n operation ops \<longrightarrow>
      poll_loop env n operation s =
      poll_loop env (n + length ops) (last (operation # ops))
        (emits (poll_events (butlast (operation # ops))) s)) \<and>
   (pending_run env n operation ops \<and> opDone (last (operation # ops)) \<longrightarrow>
      poll_loop env n operation s =
      Some (Inr (last (operation # ops)), emits (poll_events (butlast (operation # ops))) s)) \<and>
   ((\<forall>k. \<exists>ops. length ops = k \<and> pending_run env n operation ops) \<longrightarrow>
      poll_loop env n operation s = None) \<and>
   poll_events [operation] = [SetTimeout 10000, GetVideosOperation operation]"
proof (intro conjI impI)
  assume p: "pending_run env n operation ops"
  then show "poll_loop env n operation s =
      poll_loop env (n + length ops) (last (operation # ops))
        (emits (poll_events (butlast (operation # ops))) s)"
    by (rule poll_loop_run)
next
  assume "pending_run env n operation ops \<and> opDone (last (operation # ops))"
  then have p: "pending_run env n operation ops" and d: "opDone (last (operation # ops))"
    by blast+
  show "poll_loop env n operation s =
      Some (Inr (last (operation # ops)), emits (poll_events (butlast (operation # ops))) s)"
    unfolding poll_loop_run [OF p, of s] by (rule poll_loop_done [OF d])
next
  assume "\<forall>k. \<exists>ops. length ops = k \<and> pending_run env n operation ops"
  then show "poll_loop env n operation s = None"
    by (rule poll_loop_forever)
next
  show "poll_events [operation] = [SetTimeout 10000, GetVideosOperation operation]"
    by simp
qed

theorem polls_until_done_witness:
  "pending_run service 0 job_pending [job_pending, job_pending, job_done] \<and>
   opDone job_done \<and>
   poll_loop service 0 job_pending initial_state =
     Some (Inr job_done,
       emits [SetTimeout 10000, GetVideosOperation job_pending,
              SetTimeout 10000, GetVideosOperation job_pending,
              SetTimeout 10000, GetVideosOperation job_pending] initial_state) \<and>
   (\<forall>k. \<exists>ops. length ops = k \<and> pending_run service_never_done 0 job_pending ops) \<and>
   poll_loop service_never_done 0 job_pending initial_state = None"
proof -
  have p: "pending_run service 0 job_pending [job_pending, job_pending, job_done]"
    by (rule service_run(4))
  have d: "opDone (last (job_pending # [job_pending, job_pending, job_done]))"
    by (rule service_run(5))
  have f: "\<forall>k. \<exists>ops. length ops = k \<and> pending_run service_never_done 0 job_pending ops"
  proof
    fix k
    show "\<exists>ops. length ops = k \<and> pending_run service_never_done 0 job_pending ops"
      using never_done_pending [of 0 k] by (intro exI [of _ "replicate k job_pending"]) simp
  qed
  from polls_until_done [of service 0 job_pending "[job_pending, job_pending, job_done]" initial_state]
    p d
  have a: "poll_loop service 0 job_pending initial_state =
      Some (Inr (last (job_pending # [job_pending, job_pending, job_done])),
        emits (poll_events (butlast (job_pending # [job_pending, job_pending, job_done])))
          initial_state)"
    by blast
  from polls_until_done [of service_never_done 0 job_pending "[]" initial_state] f
  have b: "poll_loop service_never_done 0 job_pending initial_state = None"
    by blast
  have dd: "opDone job_done" by (simp add: job_done_def)
  from a have a': "poll_loop service 0 job_pending initial_state =
     Some (Inr job_done,
       emits [SetTimeout 10000, GetVideosOperation job_pending,
              SetTimeout 10000, GetVideosOperation job_pending,
              SetTimeout 10000, GetVideosOperation job_pending] initial_state)"
    by simp
  from p dd a' f b show ?thesis by blast
qed

section \<open>No exception leaves the handler\<close>




section \<open>The rotation of the loading message\<close>

text \<open>
  C10. The rotation step is total and closed over the five messages: for every current
  message, also one that is not in the list, the next message is defined and is an
  element of the list; from the message at index \<open>i\<close> the step goes to the message at
  index \<open>(i + 1) mod 5\<close>; and a message that is not in the list goes to the first
  element, since \<open>indexOf\<close> gives \<open>-1\<close> and \<open>(-1 + 1) % 5 = 0\<close>.
\<close>

theorem nextLoadingMessage_closed:
  "(\<exists>m. nextLoadingMessage prev = Some m \<and> m \<in> set loadingMessages) \<and>
   (\<forall>i < 5. nextLoadingMessage (loadingMessages ! i) = Some (loadingMessages ! ((i + 1) mod 5))) \<and>
   (prev \<notin> set loadingMessages \<longrightarrow>
      indexOf loadingMessages prev = - 1 \<and> js_rem (- 1 + 1) 5 = 0 \<and>
      nextLoadingMessage prev = Some (loadingMessages ! 0))"
proof (intro conjI allI impI)
  have r: "- 1 \<le> indexOf loadingMessages prev" "indexOf loadingMessages prev < 5"
    using indexOf_range [of loadingMessages prev] by (simp_all add: length_loadingMessages)
  define k where "k = indexOf loadingMessages prev + 1"
  have k: "0 \<le> k" "k \<le> 5" using r by (simp_all add: k_def)
  have m: "js_rem k 5 = k mod 5" using k by (simp add: js_rem_nonneg)
  have b: "0 \<le> k mod 5" "k mod 5 < 5" by simp_all
  have "nextLoadingMessage prev = Some (loadingMessages ! nat (k mod 5))"
    using b by (simp add: nextLoadingMessage_def Let_def at_index_def
        length_loadingMessages k_def [symmetric] m)
  moreover have "loadingMessages ! nat (k mod 5) \<in> set loadingMessages"
    using b by (intro nth_mem) (simp add: length_loadingMessages)
  ultimately show "\<exists>m. nextLoadingMessage prev = Some m \<and> m \<in> set loadingMessages"
    by blast
next
  fix i :: nat
  assume i: "i < 5"
  have ix: "indexOf loadingMessages (loadingMessages ! i) = int i"
    using i by (simp add: indexOf_nth distinct_loadingMessages length_loadingMessages)
  have m: "js_rem (int i + 1) 5 = (int i + 1) mod 5"
    by (simp add: js_rem_nonneg)
  have e: "nat ((int i + 1) mod 5) = (i + 1) mod 5"
    by (simp add: nat_mod_distrib nat_add_distrib)
  have b: "(int i + 1) mod 5 < 5" by simp
  show "nextLoadingMessage (loadingMessages ! i) = Some (loadingMessages ! ((i + 1) mod 5))"
    using b by (simp add: nextLoadingMessage_def Let_def at_index_def
        length_loadingMessages ix m e)
next
  assume n: "prev \<notin> set loadingMessages"
  then show "indexOf loadingMessages prev = - 1" by (rule indexOf_notin)
  show "js_rem (- 1 + 1) 5 = 0" by (simp add: js_rem_def)
  from n show "nextLoadingMessage prev = Some (loadingMessages ! 0)"
    by (simp add: nextLoadingMessage_def Let_def at_index_def indexOf_notin
        length_loadingMessages js_rem_def)
qed

theorem nextLoadingMessage_closed_witness:
  "4 < (5::nat) \<and> ''Please wait'' \<notin> set loadingMessages \<and>
   nextLoadingMessage ''Finalizing the special effects...'' =
     Some ''Warming up the creative engines...'' \<and>
   nextLoadingMessage ''Please wait'' = Some ''Warming up the creative engines...''"
proof -
  have n: "''Please wait'' \<notin> set loadingMessages"
    by (simp add: loadingMessages_def)
  have l: "loadingMessages ! 4 = ''Finalizing the special effects...''"
    "loadingMessages ! ((4 + 1) mod 5) = ''Warming up the creative engines...''"
    "loadingMessages ! 0 = ''Warming up the creative engines...''"
    by (simp_all add: loadingMessages_def)
  from nextLoadingMessage_closed [of "''Please wait''"]
  have a: "\<forall>i<5. nextLoadingMessage (loadingMessages ! i) =
             Some (loadingMessages ! ((i + 1) mod 5))"
    and b: "''Please wait'' \<notin> set loadingMessages \<longrightarrow>
             nextLoadingMessage ''Please wait'' = Some (loadingMessages ! 0)"
    by simp_all
  from a have "(4::nat) < 5 \<longrightarrow> nextLoadingMessage (loadingMessages ! 4) =
      Some (loadingMessages ! ((4 + 1) mod 5))"
    by (rule spec)
  then have "nextLoadingMessage (loadingMessages ! 4) =
      Some (loadingMessages ! ((4 + 1) mod 5))"
    by simp
  with b n l show ?thesis by simp
qed

end
